theory Spec2Isabelle
  imports Main "HOL-Library.Word"
begin

unbundle bit_operations_syntax

section \<open>Backend result codes and POSIX error numbers\<close>

text \<open>
  The result codes of the FAT library, in the order of the \<^verbatim>\<open>switch\<close> of
  \<^verbatim>\<open>fatfs_to_errno\<close> (AP_Filesystem_FATFS.cpp, lines 119-184).  The enumeration itself
  lives in \<^verbatim>\<open>ff.h\<close>, which is not among the sources; the comments of the switch give the
  number of every enumerator.  A C \<^verbatim>\<open>switch\<close> over an enumeration also receives values
  that are none of its enumerators: \<open>FR_UNLISTED n\<close> stands for the numeric code
  \<open>20 + n\<close>, a code that the library may grow in the future.
\<close>

datatype FRESULT =
    FR_OK
  | FR_DISK_ERR
  | FR_INT_ERR
  | FR_NOT_READY
  | FR_NO_FILE
  | FR_NO_PATH
  | FR_INVALID_NAME
  | FR_DENIED
  | FR_EXIST
  | FR_INVALID_OBJECT
  | FR_WRITE_PROTECTED
  | FR_INVALID_DRIVE
  | FR_NOT_ENABLED
  | FR_NO_FILESYSTEM
  | FR_MKFS_ABORTED
  | FR_TIMEOUT
  | FR_LOCKED
  | FR_NOT_ENOUGH_CORE
  | FR_TOO_MANY_OPEN_FILES
  | FR_INVALID_PARAMETER
  | FR_UNLISTED nat

text \<open>The numeric value of a result code, as a C conversion to an integer reads it.\<close>

fun FRESULT_value :: "FRESULT \<Rightarrow> nat" where
  "FRESULT_value FR_OK = 0"
| "FRESULT_value FR_DISK_ERR = 1"
| "FRESULT_value FR_INT_ERR = 2"
| "FRESULT_value FR_NOT_READY = 3"
| "FRESULT_value FR_NO_FILE = 4"
| "FRESULT_value FR_NO_PATH = 5"
| "FRESULT_value FR_INVALID_NAME = 6"
| "FRESULT_value FR_DENIED = 7"
| "FRESULT_value FR_EXIST = 8"
| "FRESULT_value FR_INVALID_OBJECT = 9"
| "FRESULT_value FR_WRITE_PROTECTED = 10"
| "FRESULT_value FR_INVALID_DRIVE = 11"
| "FRESULT_value FR_NOT_ENABLED = 12"
| "FRESULT_value FR_NO_FILESYSTEM = 13"
| "FRESULT_value FR_MKFS_ABORTED = 14"
| "FRESULT_value FR_TIMEOUT = 15"
| "FRESULT_value FR_LOCKED = 16"
| "FRESULT_value FR_NOT_ENOUGH_CORE = 17"
| "FRESULT_value FR_TOO_MANY_OPEN_FILES = 18"
| "FRESULT_value FR_INVALID_PARAMETER = 19"
| "FRESULT_value (FR_UNLISTED n) = 20 + n"

text \<open>
  The values \<^verbatim>\<open>errno\<close> takes in the two backends.  \<open>E_NONE\<close> is the value \<open>0\<close>
  (no error); the other constructors are the POSIX names the sources use.  Their numbers
  differ between C libraries and play no role: only that they are distinct.
\<close>

datatype errno_t =
    E_NONE
  | EPERM
  | ENOENT
  | EIO
  | ENXIO
  | EBADF
  | ENOMEM
  | EACCES
  | EBUSY
  | EEXIST
  | EINVAL
  | ENFILE
  | EMFILE
  | ENOSPC
  | EROFS
  | EBADMSG

text \<open>\<^verbatim>\<open>static int fatfs_to_errno(FRESULT Result)\<close>: one equation per \<^verbatim>\<open>case\<close>, in
  the order of the source; the last equation is the \<^verbatim>\<open>return EBADMSG\<close> after the
  switch.\<close>

fun fatfs_to_errno :: "FRESULT \<Rightarrow> errno_t" where
  "fatfs_to_errno FR_OK = E_NONE"
| "fatfs_to_errno FR_DISK_ERR = EIO"
| "fatfs_to_errno FR_INT_ERR = EPERM"
| "fatfs_to_errno FR_NOT_READY = EBUSY"
| "fatfs_to_errno FR_NO_FILE = ENOENT"
| "fatfs_to_errno FR_NO_PATH = ENOENT"
| "fatfs_to_errno FR_INVALID_NAME = EINVAL"
| "fatfs_to_errno FR_DENIED = EACCES"
| "fatfs_to_errno FR_EXIST = EEXIST"
| "fatfs_to_errno FR_INVALID_OBJECT = EINVAL"
| "fatfs_to_errno FR_WRITE_PROTECTED = EROFS"
| "fatfs_to_errno FR_INVALID_DRIVE = ENXIO"
| "fatfs_to_errno FR_NOT_ENABLED = ENOSPC"
| "fatfs_to_errno FR_NO_FILESYSTEM = ENXIO"
| "fatfs_to_errno FR_MKFS_ABORTED = EINVAL"
| "fatfs_to_errno FR_TIMEOUT = EBUSY"
| "fatfs_to_errno FR_LOCKED = EBUSY"
| "fatfs_to_errno FR_NOT_ENOUGH_CORE = ENOMEM"
| "fatfs_to_errno FR_TOO_MANY_OPEN_FILES = EMFILE"
| "fatfs_to_errno FR_INVALID_PARAMETER = EINVAL"
| "fatfs_to_errno _ = EBADMSG"

lemma fatfs_to_errno_ENOSPC_iff: "fatfs_to_errno r = ENOSPC \<longleftrightarrow> r = FR_NOT_ENABLED"
  by (cases r) simp_all

lemma fatfs_to_errno_EBUSY_iff:
  "fatfs_to_errno r = EBUSY \<longleftrightarrow> r = FR_NOT_READY \<or> r = FR_TIMEOUT \<or> r = FR_LOCKED"
  by (cases r) simp_all

lemma fatfs_to_errno_EBADMSG_iff: "fatfs_to_errno r = EBADMSG \<longleftrightarrow> (\<exists>n. r = FR_UNLISTED n)"
  by (cases r) simp_all

lemma fatfs_to_errno_EIO_iff: "fatfs_to_errno r = EIO \<longleftrightarrow> r = FR_DISK_ERR"
  by (cases r) simp_all

text \<open>
  Claim C8, as amended.  The translator is a total function of the result code alone.  The
  device error maps to \<open>EIO\<close>, no-such-file and no-such-path to \<open>ENOENT\<close>, the invalid name
  to \<open>EINVAL\<close>, the missing work area to \<open>ENOSPC\<close>, the sharing violation (\<open>FR_LOCKED\<close>),
  the drive that is not ready and the timeout to \<open>EBUSY\<close>, write protection to \<open>EROFS\<close>,
  too many open files to \<open>EMFILE\<close>, and every code the switch does not list to
  \<open>EBADMSG\<close>.  The missing work area is the only code that maps to \<open>ENOSPC\<close>: the code the
  library returns for a full directory, \<open>FR_DENIED\<close>, maps to \<open>EACCES\<close>.
\<close>

theorem fatfs_to_errno_classification:
  "fatfs_to_errno FR_DISK_ERR = EIO
   \<and> fatfs_to_errno FR_NO_FILE = ENOENT
   \<and> fatfs_to_errno FR_NO_PATH = ENOENT
   \<and> fatfs_to_errno FR_INVALID_NAME = EINVAL
   \<and> fatfs_to_errno FR_NOT_ENABLED = ENOSPC
   \<and> {r. fatfs_to_errno r = ENOSPC} = {FR_NOT_ENABLED}
   \<and> fatfs_to_errno FR_DENIED = EACCES
   \<and> fatfs_to_errno FR_LOCKED = EBUSY
   \<and> fatfs_to_errno FR_NOT_READY = EBUSY
   \<and> fatfs_to_errno FR_TIMEOUT = EBUSY
   \<and> fatfs_to_errno FR_WRITE_PROTECTED = EROFS
   \<and> fatfs_to_errno FR_TOO_MANY_OPEN_FILES = EMFILE
   \<and> (\<forall>n. fatfs_to_errno (FR_UNLISTED n) = EBADMSG)
   \<and> {r. fatfs_to_errno r = EBADMSG} = range FR_UNLISTED"
proof -
  have "{r. fatfs_to_errno r = ENOSPC} = {FR_NOT_ENABLED}"
    using fatfs_to_errno_ENOSPC_iff by auto
  moreover have "{r. fatfs_to_errno r = EBADMSG} = range FR_UNLISTED"
    using fatfs_to_errno_EBADMSG_iff by auto
  ultimately show ?thesis by simp
qed

text \<open>
  Claim C8 as the specification words it has a disk-full code map to out-of-space.  The
  switch has one code whose comment speaks of a full medium (``Access denied due to
  prohibited access or directory full''), and it maps to permission-denied.
\<close>

theorem fatfs_to_errno_full_counterexample:
  "fatfs_to_errno FR_DENIED = EACCES \<and> fatfs_to_errno FR_DENIED \<noteq> ENOSPC"
  by simp

section \<open>The read-only embedded backend (AP_Filesystem_ROMFS.cpp)\<close>

text \<open>
  The class declaration (\<^verbatim>\<open>AP_Filesystem_ROMFS.h\<close>) is not among the sources.  The member
  functions use an array \<^verbatim>\<open>file[max_open_file]\<close> of records with the fields
  \<^verbatim>\<open>data\<close>, \<^verbatim>\<open>size\<close> and \<^verbatim>\<open>ofs\<close>, and an array \<^verbatim>\<open>dir[max_open_dir]\<close> of records
  with the fields \<^verbatim>\<open>path\<close>, \<^verbatim>\<open>ofs\<close> and \<^verbatim>\<open>de\<close>.  A null pointer is \<open>None\<close>.  The
  embedded image that \<^verbatim>\<open>AP_ROMFS\<close> serves is a table of named byte strings.
\<close>

record rfile =
  data :: "8 word list option"
  size_rf :: "32 word"
  ofs :: "32 word"

record dirent =
  d_name :: string
  d_type :: nat

record rdir =
  path :: "string option"
  ofs_rd :: "16 word"
  de :: dirent

record romfs_state =
  file_romfs :: "rfile list"
  dir_romfs :: "rdir list"
  image_romfs :: "(string \<times> 8 word list) list"
  errno_romfs :: errno_t

text \<open>\<^verbatim>\<open>int32_t AP_Filesystem_ROMFS::write(int fd, const void *buf, uint32_t count)\<close>;
  the buffer is its address.\<close>

definition ROMFS_write :: "romfs_state \<Rightarrow> int \<Rightarrow> nat \<Rightarrow> 32 word \<Rightarrow> 32 word \<times> romfs_state" where
  "ROMFS_write s fd buf count = (- 1, s\<lparr>errno_romfs := EROFS\<rparr>)"

text \<open>\<^verbatim>\<open>int AP_Filesystem_ROMFS::unlink(const char *pathname)\<close>\<close>

definition ROMFS_unlink :: "romfs_state \<Rightarrow> string \<Rightarrow> int \<times> romfs_state" where
  "ROMFS_unlink s pathname = (- 1, s\<lparr>errno_romfs := EROFS\<rparr>)"

text \<open>\<^verbatim>\<open>int AP_Filesystem_ROMFS::mkdir(const char *pathname)\<close>\<close>

definition ROMFS_mkdir :: "romfs_state \<Rightarrow> string \<Rightarrow> int \<times> romfs_state" where
  "ROMFS_mkdir s pathname = (- 1, s\<lparr>errno_romfs := EROFS\<rparr>)"

text \<open>The backend state of the embedded backend: everything but \<^verbatim>\<open>errno\<close>.\<close>

definition romfs_backend_unchanged :: "romfs_state \<Rightarrow> romfs_state \<Rightarrow> bool" where
  "romfs_backend_unchanged s s' =
     (file_romfs s' = file_romfs s \<and> dir_romfs s' = dir_romfs s \<and> image_romfs s' = image_romfs s)"

text \<open>
  Claim C9.  On the read-only embedded backend \<open>write\<close>, \<open>unlink\<close> and \<open>mkdir\<close> return
  \<open>-1\<close> with \<^verbatim>\<open>errno\<close> set to \<open>EROFS\<close> for every state and every argument, and none of
  them changes the file records (the handle table and the open files' data and offsets),
  the directory records or the image.
\<close>

theorem ROMFS_mutators_fail_EROFS:
  "fst (ROMFS_write s fd buf count) = - 1
   \<and> errno_romfs (snd (ROMFS_write s fd buf count)) = EROFS
   \<and> romfs_backend_unchanged s (snd (ROMFS_write s fd buf count))
   \<and> fst (ROMFS_unlink s p) = - 1
   \<and> errno_romfs (snd (ROMFS_unlink s p)) = EROFS
   \<and> romfs_backend_unchanged s (snd (ROMFS_unlink s p))
   \<and> fst (ROMFS_mkdir s p) = - 1
   \<and> errno_romfs (snd (ROMFS_mkdir s p)) = EROFS
   \<and> romfs_backend_unchanged s (snd (ROMFS_mkdir s p))"
  by (simp add: ROMFS_write_def ROMFS_unlink_def ROMFS_mkdir_def romfs_backend_unchanged_def)

section \<open>The FAT backend: data and collaborators (AP_Filesystem_FATFS.cpp)\<close>

text \<open>\<^verbatim>\<open>#define MAX_IO_SIZE 4096\<close> and \<^verbatim>\<open>#define MAX_FILES 16\<close>.\<close>

definition MAX_IO_SIZE :: nat where
  "MAX_IO_SIZE = 4096"

definition MAX_FILES :: nat where
  "MAX_FILES = 16"

text \<open>
  The open-mode bits of the FAT library and its attribute bits (\<^verbatim>\<open>ff.h\<close>), and the
  open flags of the C library (\<^verbatim>\<open>fcntl.h\<close> of newlib, the C library of the ChibiOS
  build).  The headers are not among the sources; the values are the published ones.
\<close>

definition FA_READ :: "8 word" where "FA_READ = 0x01"
definition FA_WRITE :: "8 word" where "FA_WRITE = 0x02"
definition FA_CREATE_ALWAYS :: "8 word" where "FA_CREATE_ALWAYS = 0x08"
definition FA_OPEN_ALWAYS :: "8 word" where "FA_OPEN_ALWAYS = 0x10"

definition O_RDONLY :: "32 word" where "O_RDONLY = 0"
definition O_WRONLY :: "32 word" where "O_WRONLY = 1"
definition O_RDWR :: "32 word" where "O_RDWR = 2"
definition O_ACCMODE :: "32 word" where "O_ACCMODE = 3"
definition O_APPEND :: "32 word" where "O_APPEND = 0x0008"
definition O_CREAT :: "32 word" where "O_CREAT = 0x0200"
definition O_TRUNC :: "32 word" where "O_TRUNC = 0x0400"

text \<open>
  \<^verbatim>\<open>FIL\<close>, the file object of the FAT library.  This layer reads \<^verbatim>\<open>fptr\<close> (the
  read/write pointer), \<^verbatim>\<open>flag\<close> (the status flags, whose two low bits are the access
  mode) and the file size (\<^verbatim>\<open>f_size\<close>); \<open>internals\<close> stands for the rest of the
  object.  \<^verbatim>\<open>memset(fh, 0, sizeof(*fh))\<close> gives \<open>FIL_zero\<close>.
\<close>

record FIL =
  fptr :: nat
  flag :: "8 word"
  objsize :: nat
  internals :: nat

definition FIL_zero :: FIL where
  "FIL_zero = \<lparr>fptr = 0, flag = 0, objsize = 0, internals = 0\<rparr>"

text \<open>\<^verbatim>\<open>typedef struct { FIL fobj; char *name; } FAT_FILE;\<close>\<close>

record FAT_FILE =
  fobj :: FIL
  name :: string

text \<open>
  \<^verbatim>\<open>AP_Filesystem_Backend::FormatStatus\<close>.  The sources name \<open>PENDING\<close>, \<open>IN_PROGRESS\<close>,
  \<open>SUCCESS\<close> and \<open>FAILURE\<close>; the declaration is not among them, and \<open>IDLE\<close> is the
  specification's name of the state before any request.
\<close>

datatype FormatStatus = IDLE | PENDING | IN_PROGRESS | SUCCESS | FAILURE

text \<open>\<^verbatim>\<open>FILINFO\<close>, as far as \<^verbatim>\<open>stat\<close> reads it.\<close>

record FILINFO =
  fsize :: nat
  fdate :: "16 word"
  ftime :: "16 word"
  fattrib :: "8 word"

text \<open>
  The collaborators (the FAT library, the SD card driver, the allocator, the scheduler and
  the notification sink) are not part of this layer.  Every call to one of them is an
  entry of the state's \<open>trace\<close>, and a call that returns something takes the next
  \<open>reply\<close> of the state's \<open>script\<close>: the script is the behaviour of the world during a
  run, and a theorem that holds for every script holds for every behaviour.  A reply
  carries a field for each thing a collaborator can return; a call reads the fields that
  concern it.
\<close>

record reply =
  r_res :: FRESULT
  r_cnt :: nat
  r_ok :: bool
  r_fil :: FIL
  r_data :: "8 word list"
  r_info :: FILINFO
  r_fre_clust :: "32 word"
  r_csize :: "16 word"
  r_n_fatent :: "32 word"

definition default_reply :: reply where
  "default_reply =
     \<lparr>r_res = FR_OK, r_cnt = 0, r_ok = True, r_fil = FIL_zero, r_data = [],
      r_info = \<lparr>fsize = 0, fdate = 0, ftime = 0, fattrib = 0\<rparr>,
      r_fre_clust = 0, r_csize = 0, r_n_fatent = 0\<rparr>"

text \<open>
  The calls.  A file object is named by the index of its slot in the file table: the
  code reaches a \<^verbatim>\<open>FIL\<close> only through \<^verbatim>\<open>&file_table[i]->fobj\<close>.  \<open>F_read i buf n\<close> and
  \<open>F_write i buf n\<close> carry the buffer address and the byte count of the call.
\<close>

datatype call =
    Sdcard_stop
  | Sdcard_retry
  | Delay nat
  | Alloc string
  | Free string
  | Gcs_text string
  | F_open nat string "8 word"
  | F_close nat
  | F_read nat nat nat
  | F_write nat nat nat
  | F_lseek nat nat
  | F_stat string
  | F_opendir string
  | F_getfree
  | F_mkfs
  | Expect_delay nat
  | Register_io_process

datatype event = Ret call reply | Void call

text \<open>
  The state of the backend: the static \<^verbatim>\<open>remount_needed\<close> and \<^verbatim>\<open>file_table\<close>, the
  member \<^verbatim>\<open>format_status\<close>, \<^verbatim>\<open>errno\<close>, the memory that holds the callers' buffers
  (bytes by address), and the script and trace of the collaborators.
\<close>

record fat_state =
  remount_needed :: bool
  file_table :: "FAT_FILE option list"
  format_status :: FormatStatus
  errno :: errno_t
  mem :: "nat \<Rightarrow> 8 word"
  script :: "reply list"
  trace :: "event list"

text \<open>
  What the code asks of its execution context, fixed during one call.
  \<open>file_op_allowed\<close> is the test of the macro \<^verbatim>\<open>FS_CHECK_ALLOWED(retfail)\<close>, whose
  definition is not among the sources: it is taken as a parameter, and when it is false
  the operation returns \<^verbatim>\<open>retfail\<close> at once.  \<open>in_main_thread\<close> and \<open>soft_armed\<close> are
  \<^verbatim>\<open>hal.scheduler->in_main_thread()\<close> and \<^verbatim>\<open>hal.util->get_soft_armed()\<close>;
  \<open>mem_is_dma_safe a n\<close> is \<^verbatim>\<open>mem_is_dma_safe(a, n, true)\<close>; \<open>FF_USE_MKFS\<close> is the
  configuration macro of that name; \<open>ap_mktime\<close> is the function of that name, on the
  fields of \<^verbatim>\<open>struct tm\<close> that \<^verbatim>\<open>fat_time_to_unix\<close> sets (the others are zero).
\<close>

record tm =
  tm_sec :: int
  tm_min :: int
  tm_hour :: int
  tm_mday :: int
  tm_mon :: int
  tm_year :: int

record context_t =
  file_op_allowed :: bool
  in_main_thread :: bool
  soft_armed :: bool
  mem_is_dma_safe :: "nat \<Rightarrow> nat \<Rightarrow> bool"
  FF_USE_MKFS :: bool
  ap_mktime :: "tm \<Rightarrow> int"

text \<open>\<^verbatim>\<open>#define RETRY_ALLOWED() (!hal.scheduler->in_main_thread() || !hal.util->get_soft_armed())\<close>\<close>

definition RETRY_ALLOWED :: "context_t \<Rightarrow> bool" where
  "RETRY_ALLOWED c = (\<not> in_main_thread c \<or> \<not> soft_armed c)"

subsection \<open>Calling a collaborator\<close>

definition next_reply :: "fat_state \<Rightarrow> reply" where
  "next_reply s = (case script s of [] \<Rightarrow> default_reply | r # _ \<Rightarrow> r)"

definition ask :: "call \<Rightarrow> fat_state \<Rightarrow> reply \<times> fat_state" where
  "ask c s =
     (next_reply s, s\<lparr>script := tl (script s), trace := trace s @ [Ret c (next_reply s)]\<rparr>)"

definition tell :: "call \<Rightarrow> fat_state \<Rightarrow> fat_state" where
  "tell c s = s\<lparr>trace := trace s @ [Void c]\<rparr>"

text \<open>Applying a function to the file object of slot \<open>i\<close>, when the slot is occupied.\<close>

definition upd_fobj :: "nat \<Rightarrow> (FIL \<Rightarrow> FIL) \<Rightarrow> fat_state \<Rightarrow> fat_state" where
  "upd_fobj i g s =
     (if i < length (file_table s)
      then s\<lparr>file_table := (file_table s)
               [i := map_option (\<lambda>f. f\<lparr>fobj := g (fobj f)\<rparr>) (file_table s ! i)]\<rparr>
      else s)"

text \<open>Storing bytes from an address on.\<close>

definition store_bytes :: "nat \<Rightarrow> 8 word list \<Rightarrow> (nat \<Rightarrow> 8 word) \<Rightarrow> (nat \<Rightarrow> 8 word)" where
  "store_bytes a bs m = (\<lambda>x. if a \<le> x \<and> x < a + length bs then bs ! (x - a) else m x)"

text \<open>
  The FAT library and the SD card driver, as this layer sees them.  \<open>f_open\<close> builds the
  object it is given when it succeeds and leaves it as it received it otherwise;
  \<open>f_read\<close> stores the bytes it read at the buffer address; \<open>f_read\<close> and \<open>f_write\<close>
  advance the read/write pointer by the count they report; a successful \<open>f_lseek\<close> sets
  it.  What they return is the reply's.
\<close>

definition sdcard_stop :: "fat_state \<Rightarrow> fat_state" where
  "sdcard_stop s = tell Sdcard_stop s"

definition sdcard_retry :: "fat_state \<Rightarrow> bool \<times> fat_state" where
  "sdcard_retry s = (case ask Sdcard_retry s of (r, s1) \<Rightarrow> (r_ok r, s1))"

definition f_open :: "nat \<Rightarrow> string \<Rightarrow> 8 word \<Rightarrow> fat_state \<Rightarrow> FRESULT \<times> fat_state" where
  "f_open i pathname mode s =
     (case ask (F_open i pathname mode) s of
        (r, s1) \<Rightarrow> (r_res r, if r_res r = FR_OK then upd_fobj i (\<lambda>_. r_fil r) s1 else s1))"

definition f_close :: "nat \<Rightarrow> fat_state \<Rightarrow> FRESULT \<times> fat_state" where
  "f_close i s = (case ask (F_close i) s of (r, s1) \<Rightarrow> (r_res r, s1))"

definition f_lseek :: "nat \<Rightarrow> nat \<Rightarrow> fat_state \<Rightarrow> FRESULT \<times> fat_state" where
  "f_lseek i pos s =
     (case ask (F_lseek i pos) s of
        (r, s1) \<Rightarrow> (r_res r, if r_res r = FR_OK then upd_fobj i (\<lambda>f. f\<lparr>fptr := pos\<rparr>) s1 else s1))"

definition f_read :: "nat \<Rightarrow> nat \<Rightarrow> nat \<Rightarrow> fat_state \<Rightarrow> FRESULT \<times> nat \<times> fat_state" where
  "f_read i buf n s =
     (case ask (F_read i buf n) s of
        (r, s1) \<Rightarrow>
          (r_res r, r_cnt r,
           upd_fobj i (\<lambda>f. f\<lparr>fptr := fptr f + r_cnt r\<rparr>)
             (s1\<lparr>mem := store_bytes buf (r_data r) (mem s1)\<rparr>)))"

definition f_write :: "nat \<Rightarrow> nat \<Rightarrow> nat \<Rightarrow> fat_state \<Rightarrow> FRESULT \<times> nat \<times> fat_state" where
  "f_write i buf n s =
     (case ask (F_write i buf n) s of
        (r, s1) \<Rightarrow> (r_res r, r_cnt r, upd_fobj i (\<lambda>f. f\<lparr>fptr := fptr f + r_cnt r\<rparr>) s1))"

definition f_getfree :: "fat_state \<Rightarrow> FRESULT \<times> reply \<times> fat_state" where
  "f_getfree s = (case ask F_getfree s of (r, s1) \<Rightarrow> (r_res r, r, s1))"

definition f_mkfs :: "fat_state \<Rightarrow> FRESULT \<times> fat_state" where
  "f_mkfs s = (case ask F_mkfs s of (r, s1) \<Rightarrow> (r_res r, s1))"

definition alloc :: "string \<Rightarrow> fat_state \<Rightarrow> bool \<times> fat_state" where
  "alloc what s = (case ask (Alloc what) s of (r, s1) \<Rightarrow> (r_ok r, s1))"

subsection \<open>The recovery protocol\<close>

text \<open>
  The body of the loop of \<^verbatim>\<open>remount_file_system\<close> for one index (lines 208-225): an
  empty slot is skipped; for an occupied one the offset and the access bits are read,
  the object is zeroed, the file is opened again by its stored name, and after a
  successful open the offset is restored.  The result of \<^verbatim>\<open>f_lseek\<close> is dropped, as in
  the source.
\<close>

definition reopen_slot :: "nat \<Rightarrow> fat_state \<Rightarrow> fat_state" where
  "reopen_slot i s =
     (case file_table s ! i of
        None \<Rightarrow> s
      | Some f \<Rightarrow>
          let offset = fptr (fobj f);
              flags = flag (fobj f) AND (FA_READ OR FA_WRITE);
              s1 = upd_fobj i (\<lambda>_. FIL_zero) s;
              flags' = (if flags AND FA_WRITE \<noteq> 0 then flags OR FA_OPEN_ALWAYS else flags)
          in case f_open i (name f) flags' s1 of
               (res, s2) \<Rightarrow> if res = FR_OK then snd (f_lseek i offset s2) else s2)"

text \<open>\<^verbatim>\<open>static bool remount_file_system(void)\<close> (lines 196-228).\<close>

definition remount_file_system :: "fat_state \<Rightarrow> bool \<times> fat_state" where
  "remount_file_system s =
     (let s0 = tell (Expect_delay 3000) s;
          s1 = (if \<not> remount_needed s0 then sdcard_stop s0 else s0)
      in case sdcard_retry s1 of
           (ok, s2) \<Rightarrow>
             if \<not> ok then (False, s2\<lparr>remount_needed := True\<rparr>)
             else (True, fold reopen_slot [0..<MAX_FILES] (s2\<lparr>remount_needed := False\<rparr>)))"

text \<open>
  \<^verbatim>\<open>CHECK_REMOUNT()\<close> and \<^verbatim>\<open>CHECK_REMOUNT_NULL()\<close> (lines 187-188): \<open>fail\<close> is the value
  the macro returns (\<open>-1\<close> or the null pointer), \<open>k\<close> the rest of the function.
\<close>

definition CHECK_REMOUNT :: "fat_state \<Rightarrow> 'a \<Rightarrow> (fat_state \<Rightarrow> 'a \<times> fat_state) \<Rightarrow> 'a \<times> fat_state" where
  "CHECK_REMOUNT s fail k =
     (if remount_needed s
      then (case remount_file_system s of
              (ok, s1) \<Rightarrow> if \<not> ok then (fail, s1\<lparr>errno := EIO\<rparr>) else k s1)
      else k s)"

subsection \<open>Disk space\<close>

text \<open>
  \<^verbatim>\<open>int64_t AP_Filesystem_FATFS::disk_free(const char *path)\<close> (lines 710-729).  The
  sector count is a 32-bit product; the byte count fits 64 bits.
\<close>

definition FATFS_disk_free :: "context_t \<Rightarrow> fat_state \<Rightarrow> string \<Rightarrow> int \<times> fat_state" where
  "FATFS_disk_free c s pathname =
     (if \<not> file_op_allowed c then (- 1, s)
      else CHECK_REMOUNT s (- 1) (\<lambda>s.
        case f_getfree s of
          (res, r, s1) \<Rightarrow>
            if res \<noteq> FR_OK then (int (FRESULT_value res), s1)
            else
              let fre_sect = r_fre_clust r * ucast (r_csize r)
              in (int (unat fre_sect) * 512, s1)))"

text \<open>\<^verbatim>\<open>int64_t AP_Filesystem_FATFS::disk_space(const char *path)\<close> (lines 732-751).\<close>

definition FATFS_disk_space :: "context_t \<Rightarrow> fat_state \<Rightarrow> string \<Rightarrow> int \<times> fat_state" where
  "FATFS_disk_space c s pathname =
     (if \<not> file_op_allowed c then (- 1, s)
      else CHECK_REMOUNT s (- 1) (\<lambda>s.
        case f_getfree s of
          (res, r, s1) \<Rightarrow>
            if res \<noteq> FR_OK then (- 1, s1)
            else
              let tot_sect = (r_n_fatent r - 2) * ucast (r_csize r)
              in (int (unat tot_sect) * 512, s1)))"

subsection \<open>The format job\<close>

text \<open>\<^verbatim>\<open>bool AP_Filesystem_FATFS::format(void)\<close> (lines 812-824).\<close>

definition FATFS_format :: "context_t \<Rightarrow> fat_state \<Rightarrow> bool \<times> fat_state" where
  "FATFS_format c s =
     (if FF_USE_MKFS c
      then (True, (tell Register_io_process s)\<lparr>format_status := PENDING\<rparr>)
      else (False, s))"

text \<open>
  \<^verbatim>\<open>void AP_Filesystem_FATFS::format_handler(void)\<close> (lines 829-855).  The scratch buffer
  of \<^verbatim>\<open>FF_MAX_SS\<close> bytes comes from \<^verbatim>\<open>malloc_type\<close>, which can fail.
\<close>

definition FATFS_format_handler :: "context_t \<Rightarrow> fat_state \<Rightarrow> fat_state" where
  "FATFS_format_handler c s =
     (if \<not> FF_USE_MKFS c then s
      else if format_status s \<noteq> PENDING then s
      else
        let s1 = tell (Gcs_text ''Formatting SDCard'') (s\<lparr>format_status := IN_PROGRESS\<rparr>)
        in case alloc ''FF_MAX_SS'' s1 of
             (ok, s2) \<Rightarrow>
               if \<not> ok then s2
               else
                 case f_mkfs s2 of
                   (ret, s3) \<Rightarrow>
                     let s4 = tell (Free ''FF_MAX_SS'') s3;
                         s5 = (if ret = FR_OK
                               then tell (Gcs_text ''Format: OK'') (s4\<lparr>format_status := SUCCESS\<rparr>)
                               else tell (Gcs_text ''Format: Failed'') (s4\<lparr>format_status := FAILURE\<rparr>));
                         s6 = sdcard_stop s5
                     in snd (sdcard_retry s6))"

text \<open>\<^verbatim>\<open>FormatStatus AP_Filesystem_FATFS::get_format_status(void) const\<close>\<close>

definition FATFS_get_format_status :: "fat_state \<Rightarrow> FormatStatus" where
  "FATFS_get_format_status s = format_status s"

subsection \<open>A start state and a context\<close>

text \<open>
  The state at start-up (static storage is zero), with a given script, and the context of a
  thread other than the main one of a vehicle that is not armed, with buffers that are
  never safe for direct transfer.
\<close>

definition fat_init :: "reply list \<Rightarrow> fat_state" where
  "fat_init rs =
     \<lparr>remount_needed = False, file_table = replicate MAX_FILES None, format_status = IDLE,
      errno = E_NONE, mem = (\<lambda>_. 0), script = rs, trace = []\<rparr>"

definition io_thread :: context_t where
  "io_thread =
     \<lparr>file_op_allowed = True, in_main_thread = False, soft_armed = False,
      mem_is_dma_safe = (\<lambda>_ _. False), FF_USE_MKFS = True, ap_mktime = (\<lambda>_. 0)\<rparr>"

subsection \<open>The file table\<close>

text \<open>
  \<^verbatim>\<open>static int new_file_descriptor(const char *pathname, FIL * &fh)\<close> (lines 53-79).  The
  loop returns at the first free slot, whatever the allocations give; \<^verbatim>\<open>calloc\<close> hands
  out a zeroed record.  The reference \<^verbatim>\<open>fh\<close> is the object of the slot returned.
\<close>

definition new_file_descriptor :: "string \<Rightarrow> fat_state \<Rightarrow> int \<times> fat_state" where
  "new_file_descriptor pathname s =
     (case find (\<lambda>i. file_table s ! i = None) [0..<MAX_FILES] of
        None \<Rightarrow> (- 1, s\<lparr>errno := ENFILE\<rparr>)
      | Some i \<Rightarrow>
          (case alloc ''FAT_FILE'' s of
             (ok, s1) \<Rightarrow>
               if \<not> ok then (- 1, s1\<lparr>errno := ENOMEM\<rparr>)
               else
                 (case alloc ''name'' s1 of
                    (ok', s2) \<Rightarrow>
                      if \<not> ok' then (- 1, (tell (Free ''FAT_FILE'') s2)\<lparr>errno := ENOMEM\<rparr>)
                      else
                        (int i,
                         s2\<lparr>file_table := (file_table s2)
                              [i := Some \<lparr>fobj = FIL_zero, name = pathname\<rparr>]\<rparr>))))"

text \<open>\<^verbatim>\<open>static FAT_FILE *fileno_to_stream(int fileno)\<close> (lines 81-95).\<close>

definition fileno_to_stream :: "int \<Rightarrow> fat_state \<Rightarrow> FAT_FILE option \<times> fat_state" where
  "fileno_to_stream fileno s =
     (if fileno < 0 \<or> fileno \<ge> int MAX_FILES then (None, s\<lparr>errno := EBADF\<rparr>)
      else
        (case file_table s ! nat fileno of
           None \<Rightarrow> (None, s\<lparr>errno := EBADF\<rparr>)
         | Some stream \<Rightarrow> (Some stream, s)))"

text \<open>\<^verbatim>\<open>static void free_file_descriptor(int fileno)\<close> (lines 97-105).\<close>

definition free_file_descriptor :: "int \<Rightarrow> fat_state \<Rightarrow> fat_state" where
  "free_file_descriptor fileno s =
     (case fileno_to_stream fileno s of
        (None, s1) \<Rightarrow> s1
      | (Some stream, s1) \<Rightarrow>
          tell (Free ''FAT_FILE'')
            (tell (Free ''name'') (s1\<lparr>file_table := (file_table s1)[nat fileno := None]\<rparr>)))"

text \<open>\<^verbatim>\<open>static FIL *fileno_to_fatfs(int fileno)\<close> (lines 107-117): the object of an
  occupied slot, named by the slot's index.\<close>

definition fileno_to_fatfs :: "int \<Rightarrow> fat_state \<Rightarrow> nat option \<times> fat_state" where
  "fileno_to_fatfs fileno s =
     (case fileno_to_stream fileno s of
        (None, s1) \<Rightarrow> (None, s1)
      | (Some stream, s1) \<Rightarrow> (Some (nat fileno), s1))"

text \<open>\<^verbatim>\<open>f_size(fh)\<close>\<close>

definition f_size :: "nat \<Rightarrow> fat_state \<Rightarrow> nat" where
  "f_size i s = (case file_table s ! i of None \<Rightarrow> 0 | Some f \<Rightarrow> objsize (fobj f))"

subsection \<open>open and close\<close>

text \<open>
  \<^verbatim>\<open>int AP_Filesystem_FATFS::open(const char *pathname, int flags, bool allow_absolute_path)\<close>
  (lines 230-293).  The mode bits are all below \<open>0x100\<close>, so the \<^verbatim>\<open>int\<close> of the source
  and its conversion \<^verbatim>\<open>(BYTE)(fatfs_modes & 0xff)\<close> are one byte here.
\<close>

definition FATFS_open :: "context_t \<Rightarrow> fat_state \<Rightarrow> string \<Rightarrow> 32 word \<Rightarrow> bool \<Rightarrow> int \<times> fat_state" where
  "FATFS_open c s pathname flags allow_absolute_path =
     (if \<not> file_op_allowed c then (- 1, s)
      else CHECK_REMOUNT s (- 1) (\<lambda>s.
        let s0 = s\<lparr>errno := E_NONE\<rparr>;
            access_modes =
              (if flags AND O_ACCMODE = O_RDWR then FA_READ OR FA_WRITE
               else if flags AND O_ACCMODE = O_RDONLY then FA_READ
               else FA_WRITE);
            fatfs_modes =
              (if flags AND O_CREAT \<noteq> 0
               then (if flags AND O_TRUNC \<noteq> 0 then access_modes OR FA_CREATE_ALWAYS
                     else access_modes OR FA_OPEN_ALWAYS)
               else access_modes)
        in case new_file_descriptor pathname s0 of
             (fileno, s1) \<Rightarrow>
               if fileno < 0 then (- 1, s1)
               else
                 (case f_open (nat fileno) pathname fatfs_modes s1 of
                    (res1, s2) \<Rightarrow>
                      (case (if res1 = FR_DISK_ERR \<and> RETRY_ALLOWED c
                             then (case remount_file_system (tell (Delay 100) s2) of
                                     (ok, s3) \<Rightarrow>
                                       if ok then f_open (nat fileno) pathname fatfs_modes s3
                                       else (res1, s3))
                             else (res1, s2)) of
                         (res, s4) \<Rightarrow>
                           if res \<noteq> FR_OK
                           then (- 1, free_file_descriptor fileno (s4\<lparr>errno := fatfs_to_errno res\<rparr>))
                           else if flags AND O_APPEND \<noteq> 0
                           then
                             (case f_lseek (nat fileno) (f_size (nat fileno) s4) s4 of
                                (res', s5) \<Rightarrow>
                                  if res' \<noteq> FR_OK
                                  then (- 1,
                                        free_file_descriptor fileno
                                          (snd (f_close (nat fileno)
                                             (s5\<lparr>errno := fatfs_to_errno res'\<rparr>))))
                                  else (fileno, s5))
                           else (fileno, s4)))))"

text \<open>\<^verbatim>\<open>int AP_Filesystem_FATFS::close(int fileno)\<close> (lines 295-316).\<close>

definition FATFS_close :: "context_t \<Rightarrow> fat_state \<Rightarrow> int \<Rightarrow> int \<times> fat_state" where
  "FATFS_close c s fileno =
     (if \<not> file_op_allowed c then (- 1, s)
      else
        (case fileno_to_fatfs fileno (s\<lparr>errno := E_NONE\<rparr>) of
           (None, s1) \<Rightarrow> (- 1, s1)
         | (Some i, s1) \<Rightarrow>
             (case f_close i s1 of
                (res, s2) \<Rightarrow>
                  let s3 = free_file_descriptor fileno s2
                  in if res \<noteq> FR_OK then (- 1, s3\<lparr>errno := fatfs_to_errno res\<rparr>) else (0, s3))))"

subsection \<open>read and write\<close>

text \<open>
  The \<^verbatim>\<open>do ... while (bytes > 0)\<close> loop of \<^verbatim>\<open>read\<close> (lines 340-366).  \<open>i\<close> is the slot of
  the file object, \<open>cnt\<close> the \<^verbatim>\<open>count\<close> of the call (which the transfer-safety test
  receives at every turn, with the current buffer address), \<open>buf\<close>, \<open>bytes\<close> and \<open>tot\<close> (the source's \<^verbatim>\<open>total\<close>)
  the loop's variables.  The counts are 32-bit unsigned in the source; \<open>tot + bytes\<close>
  never passes \<open>cnt\<close>, so no sum wraps, and the only conversion that matters is the one
  of the result: \<^verbatim>\<open>(ssize_t)total\<close>, returned as \<^verbatim>\<open>int32_t\<close>, is the word \<open>of_nat tot\<close>.
\<close>

text \<open>The size of the next transfer (lines 343-346 and 388-391):
  \<^verbatim>\<open>UINT n = bytes; if (!mem_is_dma_safe(buf, count, true)) { n = MIN(bytes, MAX_IO_SIZE); }\<close>\<close>

definition chunk_size :: "context_t \<Rightarrow> nat \<Rightarrow> nat \<Rightarrow> nat \<Rightarrow> nat" where
  "chunk_size c cnt buf bytes =
     (if \<not> mem_is_dma_safe c buf cnt then min bytes MAX_IO_SIZE else bytes)"

function read_loop ::
  "context_t \<Rightarrow> nat \<Rightarrow> nat \<Rightarrow> nat \<Rightarrow> nat \<Rightarrow> nat \<Rightarrow> fat_state \<Rightarrow> 32 word \<times> fat_state" where
  "read_loop c i cnt buf bytes tot s =
     (let n = chunk_size c cnt buf bytes
      in case f_read i buf n s of
           (res, sz, s1) \<Rightarrow>
             if res \<noteq> FR_OK then (- 1, s1\<lparr>errno := fatfs_to_errno res\<rparr>)
             else if sz = 0 then (of_nat tot, s1)
             else if sz > n then (- 1, s1\<lparr>errno := EIO\<rparr>)
             else if sz < n then (of_nat (tot + sz), s1)
             else if bytes - sz > 0
             then read_loop c i cnt (buf + sz) (bytes - sz) (tot + sz) s1
             else (of_nat (tot + sz), s1))"
  by pat_completeness auto
termination
  by (relation "measure (\<lambda>(c, i, cnt, buf, bytes, tot, s). bytes)") auto

text \<open>\<^verbatim>\<open>int32_t AP_Filesystem_FATFS::read(int fd, void *buf, uint32_t count)\<close>
  (lines 318-367).\<close>

definition FATFS_read :: "context_t \<Rightarrow> fat_state \<Rightarrow> int \<Rightarrow> nat \<Rightarrow> 32 word \<Rightarrow> 32 word \<times> fat_state" where
  "FATFS_read c s fd buf cnt =
     (if \<not> file_op_allowed c then (- 1, s)
      else CHECK_REMOUNT s (- 1) (\<lambda>s.
        let s0 = (if cnt > 0 then s\<lparr>mem := (mem s)(buf := 0)\<rparr> else s)
        in case fileno_to_fatfs fd (s0\<lparr>errno := E_NONE\<rparr>) of
             (None, s1) \<Rightarrow> (- 1, s1)
           | (Some i, s1) \<Rightarrow> read_loop c i (unat cnt) buf (unat cnt) 0 s1))"

text \<open>
  One chunk of \<^verbatim>\<open>write\<close>, lines 392-400: the transfer, and its one retry after a
  device error when a retry is allowed.  The result is what the rest of the loop's body
  sees in \<^verbatim>\<open>res\<close> and \<^verbatim>\<open>size\<close>.
\<close>

definition write_chunk ::
  "context_t \<Rightarrow> nat \<Rightarrow> nat \<Rightarrow> nat \<Rightarrow> fat_state \<Rightarrow> FRESULT \<times> nat \<times> fat_state" where
  "write_chunk c i buf n s =
     (case f_write i buf n s of
        (res, sz, s1) \<Rightarrow>
          if res = FR_DISK_ERR \<and> RETRY_ALLOWED c
          then (case remount_file_system (tell (Delay 100) s1) of
                  (ok, s2) \<Rightarrow> if ok then f_write i buf n s2 else (res, sz, s2))
          else (res, sz, s1))"

text \<open>The \<^verbatim>\<open>do ... while (bytes > 0)\<close> loop of \<^verbatim>\<open>write\<close> (lines 386-416).\<close>

function write_loop ::
  "context_t \<Rightarrow> nat \<Rightarrow> nat \<Rightarrow> nat \<Rightarrow> nat \<Rightarrow> nat \<Rightarrow> fat_state \<Rightarrow> 32 word \<times> fat_state" where
  "write_loop c i cnt buf bytes tot s =
     (let n = chunk_size c cnt buf bytes
      in case write_chunk c i buf n s of
           (res, sz, s1) \<Rightarrow>
             if sz > n \<or> sz = 0 then (- 1, s1\<lparr>errno := EIO\<rparr>)
             else if res \<noteq> FR_OK \<or> sz > n then (- 1, s1\<lparr>errno := fatfs_to_errno res\<rparr>)
             else if sz < n then (of_nat (tot + sz), s1)
             else if bytes - sz > 0
             then write_loop c i cnt (buf + sz) (bytes - sz) (tot + sz) s1
             else (of_nat (tot + sz), s1))"
  by pat_completeness auto
termination
  by (relation "measure (\<lambda>(c, i, cnt, buf, bytes, tot, s). bytes)") auto

text \<open>\<^verbatim>\<open>int32_t AP_Filesystem_FATFS::write(int fd, const void *buf, uint32_t count)\<close>
  (lines 369-417); \<^verbatim>\<open>errno = 0\<close> comes before the first check here.\<close>

definition FATFS_write :: "context_t \<Rightarrow> fat_state \<Rightarrow> int \<Rightarrow> nat \<Rightarrow> 32 word \<Rightarrow> 32 word \<times> fat_state" where
  "FATFS_write c s fd buf cnt =
     (let s0 = s\<lparr>errno := E_NONE\<rparr>
      in if \<not> file_op_allowed c then (- 1, s0)
         else CHECK_REMOUNT s0 (- 1) (\<lambda>s.
           case fileno_to_fatfs fd s of
             (None, s1) \<Rightarrow> (- 1, s1)
           | (Some i, s1) \<Rightarrow> write_loop c i (unat cnt) buf (unat cnt) 0 s1))"

declare read_loop.simps [simp del]
declare write_loop.simps [simp del]

subsection \<open>stat and opendir\<close>

definition f_stat :: "string \<Rightarrow> fat_state \<Rightarrow> FRESULT \<times> FILINFO \<times> fat_state" where
  "f_stat nm s = (case ask (F_stat nm) s of (r, s1) \<Rightarrow> (r_res r, r_info r, s1))"

definition f_opendir :: "string \<Rightarrow> fat_state \<Rightarrow> FRESULT \<times> nat \<times> fat_state" where
  "f_opendir pathdir s = (case ask (F_opendir pathdir) s of (r, s1) \<Rightarrow> (r_res r, r_cnt r, s1))"



definition AM_SYS :: "8 word" where "AM_SYS = 0x04"




section \<open>The format job (claim C5)\<close>

lemma format_handler_not_pending:
  "format_status s \<noteq> PENDING \<Longrightarrow> FATFS_format_handler c s = s"
  by (simp add: FATFS_format_handler_def)

lemma format_handler_completes:
  "FF_USE_MKFS c \<Longrightarrow> format_status s = PENDING \<Longrightarrow> r_ok (next_reply s) \<Longrightarrow>
   format_status (FATFS_format_handler c s) \<in> {SUCCESS, FAILURE}"
  by (simp add: FATFS_format_handler_def tell_def alloc_def ask_def f_mkfs_def sdcard_stop_def
      sdcard_retry_def Let_def next_reply_def)

lemma format_handler_alloc_fails:
  "FF_USE_MKFS c \<Longrightarrow> format_status s = PENDING \<Longrightarrow> \<not> r_ok (next_reply s) \<Longrightarrow>
   format_status (FATFS_format_handler c s) = IN_PROGRESS"
  by (simp add: FATFS_format_handler_def tell_def alloc_def ask_def Let_def next_reply_def)

text \<open>
  Claim C5 says that the worker never returns with the job in \<open>IN_PROGRESS\<close>.  The worker
  is a no-op when the job is not \<open>PENDING\<close> (\<open>format_handler_not_pending\<close>) and ends in
  \<open>SUCCESS\<close> or \<open>FAILURE\<close> once it has its scratch buffer (\<open>format_handler_completes\<close>).
  When the allocation of the scratch buffer fails, the worker returns right after it has
  set \<open>IN_PROGRESS\<close>: a format is requested, and the first reply of the world, the
  allocator's, is a failure.
\<close>

theorem format_handler_alloc_failure_stuck:
  "format_status (FATFS_format_handler io_thread
      (snd (FATFS_format io_thread (fat_init [default_reply\<lparr>r_ok := False\<rparr>])))) = IN_PROGRESS"
  by (simp add: FATFS_format_handler_def FATFS_format_def io_thread_def fat_init_def tell_def
      alloc_def ask_def next_reply_def default_reply_def)

section \<open>Disk space (claim C4)\<close>

lemma disk_space_failure:
  "file_op_allowed c \<Longrightarrow> \<not> remount_needed s \<Longrightarrow> r_res (next_reply s) \<noteq> FR_OK \<Longrightarrow>
   fst (FATFS_disk_space c s p) = - 1"
  by (simp add: FATFS_disk_space_def CHECK_REMOUNT_def f_getfree_def ask_def)

lemma disk_free_failure:
  "file_op_allowed c \<Longrightarrow> \<not> remount_needed s \<Longrightarrow> r_res (next_reply s) \<noteq> FR_OK \<Longrightarrow>
   fst (FATFS_disk_free c s p) = int (FRESULT_value (r_res (next_reply s)))"
  by (simp add: FATFS_disk_free_def CHECK_REMOUNT_def f_getfree_def ask_def)

text \<open>
  Claim C4 says that no operation returns a result code of the FAT library.  When
  \<^verbatim>\<open>f_getfree\<close> fails, \<open>disk_space\<close> returns \<open>-1\<close>, and \<open>disk_free\<close> returns the result
  code itself: with a device error, the number \<open>1\<close>, which a caller reads as one free byte.
\<close>

theorem disk_free_returns_result_code:
  "fst (FATFS_disk_free io_thread (fat_init [default_reply\<lparr>r_res := FR_DISK_ERR\<rparr>]) ''/'') = 1
   \<and> fst (FATFS_disk_space io_thread (fat_init [default_reply\<lparr>r_res := FR_DISK_ERR\<rparr>]) ''/'') = - 1"
  by (simp add: FATFS_disk_free_def FATFS_disk_space_def CHECK_REMOUNT_def io_thread_def
      fat_init_def f_getfree_def ask_def next_reply_def default_reply_def)

section \<open>Facts about the collaborators and the recovery\<close>

lemmas prim_defs = ask_def tell_def next_reply_def sdcard_stop_def sdcard_retry_def f_open_def
  f_close_def f_lseek_def f_read_def f_write_def f_getfree_def f_mkfs_def alloc_def f_stat_def
  f_opendir_def upd_fobj_def

text \<open>Reopening a slot touches the object of that slot, the script and the trace, and
  nothing else.\<close>

lemma reopen_slot_frame:
  "remount_needed (reopen_slot i s) = remount_needed s"
  "errno (reopen_slot i s) = errno s"
  "mem (reopen_slot i s) = mem s"
  "format_status (reopen_slot i s) = format_status s"
  "length (file_table (reopen_slot i s)) = length (file_table s)"
  by (simp_all add: reopen_slot_def prim_defs Let_def split: option.splits)

lemma reopen_slot_other:
  "j \<noteq> i \<Longrightarrow> file_table (reopen_slot i s) ! j = file_table s ! j"
  by (simp add: reopen_slot_def prim_defs Let_def split: option.splits)

lemma reopen_slot_name:
  "i < length (file_table s) \<Longrightarrow>
   map_option name (file_table (reopen_slot i s) ! i) = map_option name (file_table s ! i)"
  by (simp add: reopen_slot_def prim_defs Let_def split: option.splits)

lemma fold_reopen_frame:
  "remount_needed (fold reopen_slot is s) = remount_needed s"
  "errno (fold reopen_slot is s) = errno s"
  "mem (fold reopen_slot is s) = mem s"
  "format_status (fold reopen_slot is s) = format_status s"
  "length (file_table (fold reopen_slot is s)) = length (file_table s)"
  by (induction "is" arbitrary: s; simp add: reopen_slot_frame)+

lemma remount_flag:
  "remount_needed (snd (remount_file_system s)) = (\<not> r_ok (next_reply s))"
  by (simp add: remount_file_system_def Let_def fold_reopen_frame sdcard_retry_def sdcard_stop_def
      ask_def tell_def next_reply_def)

lemma remount_fst:
  "fst (remount_file_system s) = r_ok (next_reply s)"
  by (simp add: remount_file_system_def Let_def fold_reopen_frame sdcard_retry_def sdcard_stop_def
      ask_def tell_def next_reply_def)

lemma remount_ok_flag: "r_ok (next_reply s) \<Longrightarrow> \<not> remount_needed (snd (remount_file_system s))"
  by (simp add: remount_flag)

lemma remount_fails:
  "remount_needed s \<Longrightarrow> \<not> r_ok (next_reply s) \<Longrightarrow>
   remount_file_system s = (False, s\<lparr>script := tl (script s),
       trace := trace s @ [Void (Expect_delay 3000), Ret Sdcard_retry (next_reply s)]\<rparr>)"
  by (simp add: remount_file_system_def Let_def sdcard_retry_def
      ask_def tell_def next_reply_def)

subsection \<open>The check at the entry of an operation\<close>

text \<open>
  The state a failed recovery at entry leaves: the one call to the collaborators is the
  restart of the media session, which took the next reply; \<^verbatim>\<open>errno\<close> is \<open>EIO\<close>; the
  volume stays flagged (it was); the file table is untouched.
\<close>

definition recovery_failed :: "fat_state \<Rightarrow> fat_state" where
  "recovery_failed s =
     s\<lparr>errno := EIO, script := tl (script s),
       trace := trace s @ [Void (Expect_delay 3000), Ret Sdcard_retry (next_reply s)]\<rparr>"

lemma recovery_failed_errno [simp]: "recovery_failed (s\<lparr>errno := e\<rparr>) = recovery_failed s"
  by (simp add: recovery_failed_def next_reply_def)

lemma CHECK_REMOUNT_fails:
  "remount_needed s \<Longrightarrow> \<not> r_ok (next_reply s) \<Longrightarrow>
   CHECK_REMOUNT s fail k = (fail, recovery_failed s)"
  by (simp add: CHECK_REMOUNT_def remount_fails recovery_failed_def)

lemma CHECK_REMOUNT_recovers:
  "remount_needed s \<Longrightarrow> r_ok (next_reply s) \<Longrightarrow>
   CHECK_REMOUNT s fail k = k (snd (remount_file_system s))"
  using remount_fst [of s]
  by (cases "remount_file_system s") (simp add: CHECK_REMOUNT_def)

lemma CHECK_REMOUNT_mounted:
  "\<not> remount_needed s \<Longrightarrow> CHECK_REMOUNT s fail k = k s"
  by (simp add: CHECK_REMOUNT_def)

subsection \<open>The parts of open\<close>

text \<open>The part of \<^verbatim>\<open>open\<close> after the checks at its entry (lines 242-292), and the part
  of it after the allocation of the descriptor (lines 266-292), named for the proofs;
  \<open>FATFS_open_alt\<close> and \<open>open_body_alt\<close> show that they are the text of \<open>FATFS_open\<close>.\<close>

definition open_body :: "context_t \<Rightarrow> fat_state \<Rightarrow> string \<Rightarrow> 32 word \<Rightarrow> int \<times> fat_state" where
  "open_body c s pathname flags =
       (let s0 = s\<lparr>errno := E_NONE\<rparr>;
            access_modes =
              (if flags AND O_ACCMODE = O_RDWR then FA_READ OR FA_WRITE
               else if flags AND O_ACCMODE = O_RDONLY then FA_READ
               else FA_WRITE);
            fatfs_modes =
              (if flags AND O_CREAT \<noteq> 0
               then (if flags AND O_TRUNC \<noteq> 0 then access_modes OR FA_CREATE_ALWAYS
                     else access_modes OR FA_OPEN_ALWAYS)
               else access_modes)
        in case new_file_descriptor pathname s0 of
             (fileno, s1) \<Rightarrow>
               if fileno < 0 then (- 1, s1)
               else
                 (case f_open (nat fileno) pathname fatfs_modes s1 of
                    (res1, s2) \<Rightarrow>
                      (case (if res1 = FR_DISK_ERR \<and> RETRY_ALLOWED c
                             then (case remount_file_system (tell (Delay 100) s2) of
                                     (ok, s3) \<Rightarrow>
                                       if ok then f_open (nat fileno) pathname fatfs_modes s3
                                       else (res1, s3))
                             else (res1, s2)) of
                         (res, s4) \<Rightarrow>
                           if res \<noteq> FR_OK
                           then (- 1, free_file_descriptor fileno (s4\<lparr>errno := fatfs_to_errno res\<rparr>))
                           else if flags AND O_APPEND \<noteq> 0
                           then
                             (case f_lseek (nat fileno) (f_size (nat fileno) s4) s4 of
                                (res', s5) \<Rightarrow>
                                  if res' \<noteq> FR_OK
                                  then (- 1,
                                        free_file_descriptor fileno
                                          (snd (f_close (nat fileno)
                                             (s5\<lparr>errno := fatfs_to_errno res'\<rparr>))))
                                  else (fileno, s5))
                           else (fileno, s4))))"

lemma FATFS_open_alt:
  "FATFS_open c s p fl ab =
     (if \<not> file_op_allowed c then (- 1, s)
      else CHECK_REMOUNT s (- 1) (\<lambda>s. open_body c s p fl))"
  by (simp add: FATFS_open_def open_body_def)

definition open_tail :: "context_t \<Rightarrow> nat \<Rightarrow> string \<Rightarrow> 32 word \<Rightarrow> 8 word \<Rightarrow> fat_state \<Rightarrow> int \<times> fat_state" where
  "open_tail c i pathname flags fatfs_modes s1 =
                 (case f_open i pathname fatfs_modes s1 of
                    (res1, s2) \<Rightarrow>
                      (case (if res1 = FR_DISK_ERR \<and> RETRY_ALLOWED c
                             then (case remount_file_system (tell (Delay 100) s2) of
                                     (ok, s3) \<Rightarrow>
                                       if ok then f_open i pathname fatfs_modes s3
                                       else (res1, s3))
                             else (res1, s2)) of
                         (res, s4) \<Rightarrow>
                           if res \<noteq> FR_OK
                           then (- 1, free_file_descriptor (int i) (s4\<lparr>errno := fatfs_to_errno res\<rparr>))
                           else if flags AND O_APPEND \<noteq> 0
                           then
                             (case f_lseek i (f_size i s4) s4 of
                                (res', s5) \<Rightarrow>
                                  if res' \<noteq> FR_OK
                                  then (- 1,
                                        free_file_descriptor (int i)
                                          (snd (f_close i
                                             (s5\<lparr>errno := fatfs_to_errno res'\<rparr>))))
                                  else (int i, s5))
                           else (int i, s4)))"

lemma open_body_alt:
  "open_body c s p fl =
     (case new_file_descriptor p (s\<lparr>errno := E_NONE\<rparr>) of
        (fileno, s1) \<Rightarrow>
          if fileno < 0 then (- 1, s1)
          else open_tail c (nat fileno) p fl
                 (let access_modes =
                    (if fl AND O_ACCMODE = O_RDWR then FA_READ OR FA_WRITE
                     else if fl AND O_ACCMODE = O_RDONLY then FA_READ
                     else FA_WRITE)
                  in if fl AND O_CREAT \<noteq> 0
                     then (if fl AND O_TRUNC \<noteq> 0 then access_modes OR FA_CREATE_ALWAYS
                           else access_modes OR FA_OPEN_ALWAYS)
                     else access_modes) s1)"
  by (simp add: open_body_def open_tail_def Let_def case_prod_beta)

section \<open>Recovery reopens every occupied slot (claim C2)\<close>

text \<open>
  What the recovery loop (lines 207-226) does is told per slot, from the calls it makes.
  \<open>event_slot\<close> is the slot a call to the FAT library works on; \<open>is_reopen_event\<close> holds of
  the two calls the loop makes, \<^verbatim>\<open>f_open\<close> and \<^verbatim>\<open>f_lseek\<close>.
\<close>

fun event_slot :: "event \<Rightarrow> nat option" where
  "event_slot (Ret (F_open i _ _) _) = Some i"
| "event_slot (Ret (F_close i) _) = Some i"
| "event_slot (Ret (F_read i _ _) _) = Some i"
| "event_slot (Ret (F_write i _ _) _) = Some i"
| "event_slot (Ret (F_lseek i _) _) = Some i"
| "event_slot _ = None"

fun is_reopen_event :: "event \<Rightarrow> bool" where
  "is_reopen_event (Ret (F_open _ _ _) _) = True"
| "is_reopen_event (Ret (F_lseek _ _) _) = True"
| "is_reopen_event _ = False"

text \<open>The mode of the reopen (lines 214-220): the read and write bits of the object's flag,
  with \<^verbatim>\<open>FA_OPEN_ALWAYS\<close> added when the write bit is among them.\<close>

definition reopen_mode :: "8 word \<Rightarrow> 8 word" where
  "reopen_mode fl =
     (if (fl AND (FA_READ OR FA_WRITE)) AND FA_WRITE \<noteq> 0
      then (fl AND (FA_READ OR FA_WRITE)) OR FA_OPEN_ALWAYS
      else fl AND (FA_READ OR FA_WRITE))"

text \<open>
  \<open>slot_recovered i before after evs\<close>: what became of slot \<open>i\<close>, given the calls \<open>evs\<close> made
  on it.  A free slot stays free and sees no call.  An occupied slot sees one \<^verbatim>\<open>f_open\<close>
  with its stored name and the mode above; if that fails it is the only call and the
  slot holds the zeroed object; if it succeeds, one \<^verbatim>\<open>f_lseek\<close> to the offset the object
  had before follows, and the slot holds the object the library filled in, at that offset
  when the seek succeeded.  The slot keeps its name in every case.
\<close>

definition slot_recovered :: "nat \<Rightarrow> FAT_FILE option \<Rightarrow> FAT_FILE option \<Rightarrow> event list \<Rightarrow> bool" where
  "slot_recovered i before after evs =
     (case before of
        None \<Rightarrow> after = None \<and> evs = []
      | Some f \<Rightarrow>
          (\<exists>r. r_res r \<noteq> FR_OK
               \<and> evs = [Ret (F_open i (name f) (reopen_mode (flag (fobj f)))) r]
               \<and> after = Some (f\<lparr>fobj := FIL_zero\<rparr>))
          \<or> (\<exists>r r'. r_res r = FR_OK
               \<and> evs = [Ret (F_open i (name f) (reopen_mode (flag (fobj f)))) r,
                        Ret (F_lseek i (fptr (fobj f))) r']
               \<and> after = Some (f\<lparr>fobj := (if r_res r' = FR_OK
                                            then (r_fil r)\<lparr>fptr := fptr (fobj f)\<rparr>
                                            else r_fil r)\<rparr>)))"

lemma reopen_slot_step:
  assumes i: "i < length (file_table s)"
  shows "\<exists>ev. trace (reopen_slot i s) = trace s @ ev
           \<and> (\<forall>e\<in>set ev. event_slot e = Some i \<and> is_reopen_event e)
           \<and> slot_recovered i (file_table s ! i) (file_table (reopen_slot i s) ! i) ev"
proof (cases "file_table s ! i")
  case None
  then show ?thesis
    by (simp add: reopen_slot_def slot_recovered_def)
next
  case (Some f)
  let ?m = "reopen_mode (flag (fobj f))"
  let ?s1 = "upd_fobj i (\<lambda>_. FIL_zero) s"
  let ?r = "next_reply s"
  have t1: "file_table ?s1 ! i = Some (f\<lparr>fobj := FIL_zero\<rparr>)"
    using i Some by (simp add: upd_fobj_def)
  show ?thesis
  proof (cases "r_res ?r = FR_OK")
    case False
    then have "reopen_slot i s = snd (ask (F_open i (name f) ?m) ?s1)"
      using Some by (simp add: reopen_slot_def Let_def reopen_mode_def f_open_def ask_def
          next_reply_def upd_fobj_def)
    then have "trace (reopen_slot i s) = trace s @ [Ret (F_open i (name f) ?m) ?r]"
      "file_table (reopen_slot i s) ! i = Some (f\<lparr>fobj := FIL_zero\<rparr>)"
      using t1 by (simp_all add: ask_def next_reply_def upd_fobj_def)
    then show ?thesis
      using False Some
      by (intro exI [of _ "[Ret (F_open i (name f) ?m) ?r]"]) (auto simp add: slot_recovered_def)
  next
    case True
    let ?s2 = "snd (f_open i (name f) ?m ?s1)"
    let ?r' = "next_reply ?s2"
    have e: "reopen_slot i s = snd (f_lseek i (fptr (fobj f)) ?s2)"
      using Some True by (simp add: reopen_slot_def Let_def reopen_mode_def f_open_def ask_def
          next_reply_def upd_fobj_def)
    have tr: "trace (reopen_slot i s)
          = trace s @ [Ret (F_open i (name f) ?m) ?r, Ret (F_lseek i (fptr (fobj f))) ?r']"
      by (simp add: e f_lseek_def f_open_def ask_def next_reply_def upd_fobj_def case_prod_beta)
    have "file_table (reopen_slot i s) ! i
            = Some (f\<lparr>fobj := (if r_res ?r' = FR_OK then (r_fil ?r)\<lparr>fptr := fptr (fobj f)\<rparr>
                                 else r_fil ?r)\<rparr>)"
      using i Some True
      by (simp add: e f_lseek_def f_open_def ask_def next_reply_def upd_fobj_def case_prod_beta)
    then show ?thesis
      using True Some tr
      by (intro exI [of _ "[Ret (F_open i (name f) ?m) ?r, Ret (F_lseek i (fptr (fobj f))) ?r']"])
         (auto simp add: slot_recovered_def)
  qed
qed

lemma fold_reopen_slots:
  assumes "distinct is" and "\<forall>i\<in>set is. i < length (file_table s)"
  shows "\<exists>evs. trace (fold reopen_slot is s) = trace s @ evs
     \<and> (\<forall>e\<in>set evs. is_reopen_event e \<and> (\<exists>i\<in>set is. event_slot e = Some i))
     \<and> (\<forall>i\<in>set is. slot_recovered i (file_table s ! i) (file_table (fold reopen_slot is s) ! i)
                       (filter (\<lambda>e. event_slot e = Some i) evs))
     \<and> (\<forall>j. j \<notin> set is \<longrightarrow> file_table (fold reopen_slot is s) ! j = file_table s ! j)"
  using assms
proof (induction "is" arbitrary: s)
  case Nil
  show ?case by simp
next
  case (Cons i "is")
  let ?s1 = "reopen_slot i s"
  let ?s' = "fold reopen_slot is ?s1"
  have i: "i < length (file_table s)" "i \<notin> set is" "distinct is"
    using Cons.prems by simp_all
  from reopen_slot_step [OF i(1)] obtain ev where
    ev: "trace ?s1 = trace s @ ev"
      "\<forall>e\<in>set ev. event_slot e = Some i \<and> is_reopen_event e"
      "slot_recovered i (file_table s ! i) (file_table ?s1 ! i) ev"
    by blast
  have "\<forall>k\<in>set is. k < length (file_table ?s1)"
    using Cons.prems by (simp add: reopen_slot_frame)
  from Cons.IH [OF i(3) this] obtain evs where
    evs: "trace ?s' = trace ?s1 @ evs"
      "\<forall>e\<in>set evs. is_reopen_event e \<and> (\<exists>k\<in>set is. event_slot e = Some k)"
      "\<forall>k\<in>set is. slot_recovered k (file_table ?s1 ! k) (file_table ?s' ! k)
                       (filter (\<lambda>e. event_slot e = Some k) evs)"
      "\<forall>j. j \<notin> set is \<longrightarrow> file_table ?s' ! j = file_table ?s1 ! j"
    by blast
  have f_i: "filter (\<lambda>e. event_slot e = Some i) (ev @ evs) = ev"
  proof -
    have "filter (\<lambda>e. event_slot e = Some i) ev = ev"
      using ev(2) by (simp add: filter_id_conv)
    moreover have "filter (\<lambda>e. event_slot e = Some i) evs = []"
      using evs(2) i(2) by (auto simp add: filter_empty_conv)
    ultimately show ?thesis by simp
  qed
  have f_k: "filter (\<lambda>e. event_slot e = Some k) (ev @ evs) = filter (\<lambda>e. event_slot e = Some k) evs"
    if "k \<noteq> i" for k
  proof -
    have "filter (\<lambda>e. event_slot e = Some k) ev = []"
      using ev(2) that by (auto simp add: filter_empty_conv)
    then show ?thesis by simp
  qed
  have A: "trace (fold reopen_slot (i # is) s) = trace s @ (ev @ evs)"
    by (simp add: ev(1) evs(1))
  have B: "\<forall>e\<in>set (ev @ evs). is_reopen_event e \<and> (\<exists>k\<in>set (i # is). event_slot e = Some k)"
    using ev(2) evs(2) by auto
  have C: "\<forall>k\<in>set (i # is). slot_recovered k (file_table s ! k)
             (file_table (fold reopen_slot (i # is) s) ! k)
             (filter (\<lambda>e. event_slot e = Some k) (ev @ evs))"
  proof
    fix k assume k: "k \<in> set (i # is)"
    show "slot_recovered k (file_table s ! k) (file_table (fold reopen_slot (i # is) s) ! k)
             (filter (\<lambda>e. event_slot e = Some k) (ev @ evs))"
    proof (cases "k = i")
      case True
      then show ?thesis
        using ev(3) evs(4) i(2) f_i by simp
    next
      case False
      then have "k \<in> set is"
        using k by simp
      then have "slot_recovered k (file_table ?s1 ! k) (file_table ?s' ! k)
                       (filter (\<lambda>e. event_slot e = Some k) evs)"
        using evs(3) by blast
      then show ?thesis
        using False f_k [OF False] reopen_slot_other [of k i s] by simp
    qed
  qed
  have D: "\<forall>j. j \<notin> set (i # is) \<longrightarrow> file_table (fold reopen_slot (i # is) s) ! j = file_table s ! j"
    using evs(4) reopen_slot_other by simp
  show ?case
    by (intro exI conjI) (rule A, rule B, rule C, rule D)
qed

text \<open>The calls before the loop (lines 198-202).\<close>

definition restart_events :: "fat_state \<Rightarrow> event list" where
  "restart_events s =
     Void (Expect_delay 3000)
     # (if \<not> remount_needed s then [Void Sdcard_stop] else [])
     @ [Ret Sdcard_retry (next_reply s)]"

text \<open>
  Claim C2.  When the restart of the media session succeeds, \<^verbatim>\<open>remount_file_system\<close>
  returns true with the flag cleared, and after the restart it makes calls on file slots
  only, each an \<^verbatim>\<open>f_open\<close> or an \<^verbatim>\<open>f_lseek\<close>.  Every slot of the table is recovered as
  \<open>slot_recovered\<close> tells: an occupied slot has its offset and its read/write bits taken,
  its object zeroed, and is reopened by its stored name with those bits (and
  \<^verbatim>\<open>FA_OPEN_ALWAYS\<close> for a writer); after a successful reopen the offset is sought; after a
  failed one the slot keeps the zeroed object.  No slot is closed and none is freed: an
  occupied slot stays occupied, and no \<^verbatim>\<open>f_close\<close> and no release of memory is among the
  calls.
\<close>

theorem remount_reopens_slots:
  assumes ok: "r_ok (next_reply s)" and len: "length (file_table s) = MAX_FILES"
  shows "fst (remount_file_system s) \<and> \<not> remount_needed (snd (remount_file_system s))
     \<and> (\<exists>evs. trace (snd (remount_file_system s)) = trace s @ restart_events s @ evs
           \<and> (\<forall>e\<in>set evs. is_reopen_event e \<and> (\<exists>i<MAX_FILES. event_slot e = Some i))
           \<and> (\<forall>i<MAX_FILES.
                 slot_recovered i (file_table s ! i) (file_table (snd (remount_file_system s)) ! i)
                   (filter (\<lambda>e. event_slot e = Some i) evs)))"
proof -
  define s2 where "s2 = (snd (sdcard_retry (if \<not> remount_needed s
                            then sdcard_stop (tell (Expect_delay 3000) s)
                            else tell (Expect_delay 3000) s)))\<lparr>remount_needed := False\<rparr>"
  have r: "remount_file_system s = (True, fold reopen_slot [0..<MAX_FILES] s2)"
    using ok
    by (simp add: remount_file_system_def Let_def s2_def prim_defs)
  have t2: "trace s2 = trace s @ restart_events s" "file_table s2 = file_table s"
    by (simp_all add: s2_def restart_events_def prim_defs)
  have "\<forall>i\<in>set [0..<MAX_FILES]. i < length (file_table s2)"
    using len t2(2) by simp
  from fold_reopen_slots [OF distinct_upt this] obtain evs where
    evs: "trace (fold reopen_slot [0..<MAX_FILES] s2) = trace s2 @ evs"
      "\<forall>e\<in>set evs. is_reopen_event e \<and> (\<exists>i\<in>set [0..<MAX_FILES]. event_slot e = Some i)"
      "\<forall>i\<in>set [0..<MAX_FILES]. slot_recovered i (file_table s2 ! i)
           (file_table (fold reopen_slot [0..<MAX_FILES] s2) ! i)
           (filter (\<lambda>e. event_slot e = Some i) evs)"
    by blast
  have A: "trace (snd (remount_file_system s)) = trace s @ restart_events s @ evs"
    by (simp add: r evs(1) t2(1))
  have B: "\<forall>e\<in>set evs. is_reopen_event e \<and> (\<exists>i<MAX_FILES. event_slot e = Some i)"
    using evs(2) by auto
  have C: "\<forall>i<MAX_FILES.
             slot_recovered i (file_table s ! i) (file_table (snd (remount_file_system s)) ! i)
               (filter (\<lambda>e. event_slot e = Some i) evs)"
    using evs(3) by (simp add: r t2(2))
  have E: "\<exists>evs. trace (snd (remount_file_system s)) = trace s @ restart_events s @ evs
           \<and> (\<forall>e\<in>set evs. is_reopen_event e \<and> (\<exists>i<MAX_FILES. event_slot e = Some i))
           \<and> (\<forall>i<MAX_FILES.
                 slot_recovered i (file_table s ! i) (file_table (snd (remount_file_system s)) ! i)
                   (filter (\<lambda>e. event_slot e = Some i) evs))"
    by (intro exI conjI) (rule A, rule B, rule C)
  show ?thesis
    using E ok by (simp add: remount_fst remount_flag)
qed

text \<open>
  An example: a flagged volume with a reader in slot 0 at offset 10 and a writer in slot 3
  at offset 20.  The restart succeeds, the reader is reopened and sought, the reopen of the
  writer fails.
\<close>

definition two_files_open :: "reply list \<Rightarrow> fat_state" where
  "two_files_open rs =
     \<lparr>remount_needed = True,
      file_table = (replicate 16 None)
        [0 := Some \<lparr>fobj = \<lparr>fptr = 10, flag = 0x01, objsize = 100, internals = 7\<rparr>,
                     name = ''a.txt''\<rparr>,
         3 := Some \<lparr>fobj = \<lparr>fptr = 20, flag = 0x42, objsize = 50, internals = 9\<rparr>,
                     name = ''b.log''\<rparr>],
      format_status = IDLE, errno = E_NONE, mem = (\<lambda>_. 0), script = rs, trace = []\<rparr>"

definition fresh_object :: FIL where
  "fresh_object = \<lparr>fptr = 0, flag = 0x01, objsize = 100, internals = 8\<rparr>"

definition recovery_replies :: "reply list" where
  "recovery_replies =
     [default_reply,
      default_reply\<lparr>r_fil := fresh_object\<rparr>,
      default_reply,
      default_reply\<lparr>r_res := FR_NO_FILE\<rparr>]"

definition two_files_retried :: fat_state where
  "two_files_retried =
     (two_files_open (tl recovery_replies))
       \<lparr>remount_needed := False,
        trace := [Void (Expect_delay 3000), Ret Sdcard_retry default_reply]\<rparr>"

definition two_files_mid :: fat_state where
  "two_files_mid =
     \<lparr>remount_needed = False,
      file_table = (replicate 16 None)
        [0 := Some \<lparr>fobj = fresh_object\<lparr>fptr := 10\<rparr>, name = ''a.txt''\<rparr>,
         3 := Some \<lparr>fobj = \<lparr>fptr = 20, flag = 0x42, objsize = 50, internals = 9\<rparr>,
                     name = ''b.log''\<rparr>],
      format_status = IDLE, errno = E_NONE, mem = (\<lambda>_. 0),
      script = [default_reply\<lparr>r_res := FR_NO_FILE\<rparr>],
      trace = [Void (Expect_delay 3000), Ret Sdcard_retry default_reply,
               Ret (F_open 0 ''a.txt'' 0x01) (default_reply\<lparr>r_fil := fresh_object\<rparr>),
               Ret (F_lseek 0 10) default_reply]\<rparr>"

definition two_files_recovered :: fat_state where
  "two_files_recovered =
     \<lparr>remount_needed = False,
      file_table = (replicate 16 None)
        [0 := Some \<lparr>fobj = fresh_object\<lparr>fptr := 10\<rparr>, name = ''a.txt''\<rparr>,
         3 := Some \<lparr>fobj = FIL_zero, name = ''b.log''\<rparr>],
      format_status = IDLE, errno = E_NONE, mem = (\<lambda>_. 0), script = [],
      trace = [Void (Expect_delay 3000), Ret Sdcard_retry default_reply,
               Ret (F_open 0 ''a.txt'' 0x01) (default_reply\<lparr>r_fil := fresh_object\<rparr>),
               Ret (F_lseek 0 10) default_reply,
               Ret (F_open 3 ''b.log'' 0x12) (default_reply\<lparr>r_res := FR_NO_FILE\<rparr>)]\<rparr>"

lemma reopen_slot_empty:
  "file_table s ! i = None \<Longrightarrow> reopen_slot i s = s"
  by (simp add: reopen_slot_def)

lemma two_files_restart:
  "remount_file_system (two_files_open recovery_replies) =
     (True, fold reopen_slot [0..<MAX_FILES] two_files_retried)"
  by (simp add: remount_file_system_def Let_def two_files_retried_def two_files_open_def
      recovery_replies_def prim_defs default_reply_def)

lemma two_files_slot_0:
  "reopen_slot 0 two_files_retried = two_files_mid"
  by (simp add: two_files_retried_def two_files_mid_def
      two_files_open_def recovery_replies_def reopen_slot_def prim_defs Let_def
      FA_READ_def FA_WRITE_def FA_OPEN_ALWAYS_def FIL_zero_def default_reply_def
      fresh_object_def list_update_swap)

lemma two_files_slot_3:
  "reopen_slot 3 two_files_mid = two_files_recovered"
  by (simp add: two_files_mid_def two_files_recovered_def
      reopen_slot_def prim_defs Let_def
      FA_READ_def FA_WRITE_def FA_OPEN_ALWAYS_def FIL_zero_def default_reply_def
      fresh_object_def)

lemma two_files_mid_idle:
  "i \<noteq> 0 \<Longrightarrow> i \<noteq> 3 \<Longrightarrow> i < 16 \<Longrightarrow> reopen_slot i two_files_mid = two_files_mid"
  by (simp add: reopen_slot_empty two_files_mid_def)

lemma two_files_recovered_idle:
  "i \<noteq> 0 \<Longrightarrow> i \<noteq> 3 \<Longrightarrow> i < 16 \<Longrightarrow> reopen_slot i two_files_recovered = two_files_recovered"
  by (simp add: reopen_slot_empty two_files_recovered_def)

lemma two_files_remounted:
  "remount_file_system (two_files_open recovery_replies) = (True, two_files_recovered)"
proof -
  have "[0..<MAX_FILES] = [0, 1, 2, 3, 4, 5, 6, 7, 8, 9, 10, 11, 12, 13, 14, 15]"
    by (simp add: MAX_FILES_def upt_rec)
  then show ?thesis
    by (simp add: two_files_restart two_files_slot_0 two_files_slot_3 two_files_mid_idle
        two_files_recovered_idle)
qed

theorem remount_reopens_slots_witness:
  "r_ok (next_reply (two_files_open recovery_replies))
   \<and> length (file_table (two_files_open recovery_replies)) = MAX_FILES
   \<and> fst (remount_file_system (two_files_open recovery_replies))
   \<and> \<not> remount_needed (snd (remount_file_system (two_files_open recovery_replies)))
   \<and> snd (remount_file_system (two_files_open recovery_replies)) = two_files_recovered"
proof -
  have h: "r_ok (next_reply (two_files_open recovery_replies))"
    "length (file_table (two_files_open recovery_replies)) = MAX_FILES"
    by (simp_all add: two_files_open_def recovery_replies_def next_reply_def default_reply_def
        MAX_FILES_def)
  from remount_reopens_slots [OF h]
  have a: "fst (remount_file_system (two_files_open recovery_replies))"
    and b: "\<not> remount_needed (snd (remount_file_system (two_files_open recovery_replies)))"
    by simp_all
  have c: "snd (remount_file_system (two_files_open recovery_replies)) = two_files_recovered"
    by (simp add: two_files_remounted)
  show ?thesis
    by (intro conjI) (rule h(1), rule h(2), rule a, rule b, rule c)
qed

section \<open>Recovery at the entry of an operation (claim C1)\<close>

text \<open>
  The flag \<^verbatim>\<open>remount_needed\<close> and the restarts of the media session.  \<open>flag_step\<close> is what
  an event does to the flag: a restart leaves it set exactly when it failed, and no other
  event touches it.  \<open>flag_tracks s s'\<close> holds when \<open>s'\<close> has added events to the trace of
  \<open>s\<close> and its flag is what these events make of the flag of \<open>s\<close>: the outcome of the last
  restart among them, or the flag of \<open>s\<close> if there is none.
\<close>

fun flag_step :: "bool \<Rightarrow> event \<Rightarrow> bool" where
  "flag_step b (Ret Sdcard_retry r) = (\<not> r_ok r)"
| "flag_step b e = b"

definition flag_after :: "bool \<Rightarrow> event list \<Rightarrow> bool" where
  "flag_after b evs = foldl flag_step b evs"

definition flag_tracks :: "fat_state \<Rightarrow> fat_state \<Rightarrow> bool" where
  "flag_tracks s s' =
     (take (length (trace s)) (trace s') = trace s
      \<and> remount_needed s' = flag_after (remount_needed s) (drop (length (trace s)) (trace s')))"


lemma flag_tracks_refl [simp]: "flag_tracks s s"
  by (simp add: flag_tracks_def flag_after_def)






lemma flag_tracks_upd [simp]:
  "flag_tracks s0 (upd_fobj i g s) = flag_tracks s0 s"
  "flag_tracks s0 (s\<lparr>errno := e\<rparr>) = flag_tracks s0 s"
  "flag_tracks s0 (s\<lparr>mem := m\<rparr>) = flag_tracks s0 s"
  "flag_tracks s0 (s\<lparr>file_table := ft\<rparr>) = flag_tracks s0 s"
  by (simp_all add: flag_tracks_def upd_fobj_def)

























section \<open>The first byte of the read buffer (claim C10)\<close>















section \<open>Chunked transfers (claim C3)\<close>

text \<open>The transfers among the events: the calls of \<^verbatim>\<open>f_read\<close> and \<^verbatim>\<open>f_write\<close>.\<close>

fun is_transfer :: "event \<Rightarrow> bool" where
  "is_transfer (Ret (F_read _ _ _) _) = True"
| "is_transfer (Ret (F_write _ _ _) _) = True"
| "is_transfer _ = False"

text \<open>The events of a transfer loop: the transfers, and the restarts of the media session
  (made by the recovery between the two transfers of a retried chunk).\<close>

fun is_loop_event :: "event \<Rightarrow> bool" where
  "is_loop_event (Ret (F_read _ _ _) _) = True"
| "is_loop_event (Ret (F_write _ _ _) _) = True"
| "is_loop_event (Ret Sdcard_retry _) = True"
| "is_loop_event _ = False"

text \<open>
  One turn of a transfer loop: the buffer address and the byte count it passes to the
  library; the reply of its transfer; when a recovery followed the transfer (the retry
  of \<^verbatim>\<open>write\<close>), the reply of the media restart; and when the transfer was made again,
  the reply of the second transfer.  \<open>c_last\<close> is the reply whose result code and count
  the rest of the loop's body sees in \<^verbatim>\<open>res\<close> and \<^verbatim>\<open>size\<close>: the second transfer's when
  there is one, the first's otherwise.
\<close>

record chunk =
  c_buf :: nat
  c_n :: nat
  c_reply :: reply
  c_restart :: "reply option"
  c_again :: "reply option"

definition c_last :: "chunk \<Rightarrow> reply" where
  "c_last ch = (case c_again ch of None \<Rightarrow> c_reply ch | Some r \<Rightarrow> r)"

definition c_res :: "chunk \<Rightarrow> FRESULT" where
  "c_res ch = r_res (c_last ch)"

definition c_sz :: "chunk \<Rightarrow> nat" where
  "c_sz ch = r_cnt (c_last ch)"

text \<open>The events of a chunk: its transfer, the media restart if a recovery followed, and
  the second transfer, with the same arguments, if it was made.\<close>

definition chunk_events :: "(nat \<Rightarrow> nat \<Rightarrow> nat \<Rightarrow> call) \<Rightarrow> nat \<Rightarrow> chunk \<Rightarrow> event list" where
  "chunk_events mk i ch =
     Ret (mk i (c_buf ch) (c_n ch)) (c_reply ch)
     # (case c_restart ch of None \<Rightarrow> [] | Some rr \<Rightarrow> [Ret Sdcard_retry rr])
     @ (case c_again ch of None \<Rightarrow> [] | Some r \<Rightarrow> [Ret (mk i (c_buf ch) (c_n ch)) r])"

text \<open>A chunk of \<^verbatim>\<open>read\<close> is one transfer.\<close>

definition single_transfer :: "chunk \<Rightarrow> bool" where
  "single_transfer ch = (c_restart ch = None \<and> c_again ch = None)"

text \<open>
  A chunk of \<^verbatim>\<open>write\<close> (lines 392-400): the recovery follows the transfer exactly
  when the transfer returned \<open>FR_DISK_ERR\<close> and a retry is allowed, and the transfer is
  made again exactly when the media restart of that recovery succeeded.
\<close>

definition retry_of_device_error :: "context_t \<Rightarrow> chunk \<Rightarrow> bool" where
  "retry_of_device_error c ch =
     (case c_restart ch of
        None \<Rightarrow> \<not> (r_res (c_reply ch) = FR_DISK_ERR \<and> RETRY_ALLOWED c) \<and> c_again ch = None
      | Some rr \<Rightarrow>
          r_res (c_reply ch) = FR_DISK_ERR \<and> RETRY_ALLOWED c \<and> (c_again ch \<noteq> None) = r_ok rr)"

text \<open>The bytes moved by the first \<open>j\<close> chunks.\<close>

definition moved :: "chunk list \<Rightarrow> nat \<Rightarrow> nat" where
  "moved cs j = sum_list (map c_sz (take j cs))"

text \<open>
  Every chunk starts where the bytes moved so far end, and asks for the size the loop
  computes from what is left of the request.
\<close>

definition chunk_args :: "context_t \<Rightarrow> nat \<Rightarrow> nat \<Rightarrow> nat \<Rightarrow> chunk list \<Rightarrow> bool" where
  "chunk_args c cnt buf bytes cs =
     (\<forall>j<length cs. c_buf (cs ! j) = buf + moved cs j
        \<and> c_n (cs ! j) = chunk_size c cnt (buf + moved cs j) (bytes - moved cs j))"

text \<open>
  Every chunk that is followed by another one succeeded and moved all it asked for, at
  least one byte, and left the request unfinished.
\<close>

definition chunks_full :: "nat \<Rightarrow> chunk list \<Rightarrow> bool" where
  "chunks_full bytes cs =
     (\<forall>j. Suc j < length cs \<longrightarrow>
        c_res (cs ! j) = FR_OK \<and> c_sz (cs ! j) = c_n (cs ! j) \<and> 0 < c_sz (cs ! j)
        \<and> moved cs (Suc j) < bytes)"

text \<open>
  What \<^verbatim>\<open>read\<close> returns, from its last chunk: \<open>-1\<close> and the translated error when
  the library failed, \<open>-1\<close> and \<open>EIO\<close> when it reports more bytes than asked for,
  otherwise the bytes moved by all chunks, which do not exceed the request; the last
  chunk then is short, or completes the request.
\<close>

definition read_outcome :: "nat \<Rightarrow> nat \<Rightarrow> chunk list \<Rightarrow> 32 word \<times> fat_state \<Rightarrow> bool" where
  "read_outcome bytes tot cs rs =
     (if c_res (last cs) \<noteq> FR_OK
      then fst rs = - 1 \<and> errno (snd rs) = fatfs_to_errno (c_res (last cs))
      else if c_n (last cs) < c_sz (last cs)
      then fst rs = - 1 \<and> errno (snd rs) = EIO
      else fst rs = of_nat (tot + moved cs (length cs)) \<and> moved cs (length cs) \<le> bytes
           \<and> (c_sz (last cs) < c_n (last cs) \<or> moved cs (length cs) = bytes))"

lemma moved_Cons [simp]:
  "moved (ch # cs) 0 = 0"
  "moved (ch # cs) (Suc j) = c_sz ch + moved cs j"
  by (simp_all add: moved_def)

lemma moved_Nil [simp]: "moved [] j = 0"
  by (simp add: moved_def)

lemma moved_0 [simp]: "moved cs 0 = 0"
  by (simp add: moved_def)

lemma chunk_args_Cons:
  assumes "chunk_args c cnt (buf + c_sz ch) (bytes - c_sz ch) cs"
    and "c_buf ch = buf" and "c_n ch = chunk_size c cnt buf bytes"
  shows "chunk_args c cnt buf bytes (ch # cs)"
  unfolding chunk_args_def
proof (intro allI impI)
  fix j assume "j < length (ch # cs)"
  then show "c_buf ((ch # cs) ! j) = buf + moved (ch # cs) j \<and>
         c_n ((ch # cs) ! j) = chunk_size c cnt (buf + moved (ch # cs) j) (bytes - moved (ch # cs) j)"
    using assms by (cases j) (simp_all add: chunk_args_def add.assoc)
qed

lemma chunk_args_single:
  "c_buf ch = buf \<Longrightarrow> c_n ch = chunk_size c cnt buf bytes \<Longrightarrow> chunk_args c cnt buf bytes [ch]"
  by (simp add: chunk_args_def)

lemma chunks_full_single: "chunks_full bytes [ch]"
  by (simp add: chunks_full_def)

lemma chunks_full_Cons:
  assumes "chunks_full (bytes - c_sz ch) cs" and "cs \<noteq> []"
    and "c_res ch = FR_OK" "c_sz ch = c_n ch" "0 < c_sz ch" "c_sz ch < bytes"
  shows "chunks_full bytes (ch # cs)"
  unfolding chunks_full_def
proof (intro allI impI)
  fix j assume "Suc j < length (ch # cs)"
  then show "c_res ((ch # cs) ! j) = FR_OK \<and> c_sz ((ch # cs) ! j) = c_n ((ch # cs) ! j)
     \<and> 0 < c_sz ((ch # cs) ! j) \<and> moved (ch # cs) (Suc j) < bytes"
    using assms by (cases j) (auto simp add: chunks_full_def)
qed

lemma read_outcome_Cons:
  assumes "read_outcome (bytes - c_sz ch) (tot + c_sz ch) cs rs" and "cs \<noteq> []" and "c_sz ch \<le> bytes"
  shows "read_outcome bytes tot (ch # cs) rs"
  using assms by (auto simp add: read_outcome_def add.assoc split: if_splits)

lemma f_read_eq:
  "f_read i buf n s = (res, sz, s1) \<Longrightarrow>
   res = r_res (next_reply s) \<and> sz = r_cnt (next_reply s)
   \<and> trace s1 = trace s @ [Ret (F_read i buf n) (next_reply s)]"
  by (auto simp add: prim_defs)

lemma read_loop_run:
  "\<exists>cs evs. trace (snd (read_loop c i cnt buf bytes tot s)) = trace s @ evs
     \<and> filter is_loop_event evs = concat (map (chunk_events F_read i) cs)
     \<and> cs \<noteq> [] \<and> chunk_args c cnt buf bytes cs \<and> chunks_full bytes cs
     \<and> read_outcome bytes tot cs (read_loop c i cnt buf bytes tot s)
     \<and> list_all single_transfer cs"
proof (induction c i cnt buf bytes tot s rule: read_loop.induct)
  case (1 c i cnt buf bytes tot s)
  define n where "n = chunk_size c cnt buf bytes"
  obtain res sz s1 where fr: "f_read i buf n s = (res, sz, s1)"
    by (cases "f_read i buf n s") auto
  define ch where "ch = \<lparr>c_buf = buf, c_n = n, c_reply = next_reply s, c_restart = None, c_again = None\<rparr>"
  have ch: "c_buf ch = buf" "c_n ch = n" "c_res ch = res" "c_sz ch = sz"
    "chunk_events F_read i ch = [Ret (F_read i buf n) (next_reply s)]" "single_transfer ch"
    using f_read_eq [OF fr]
    by (simp_all add: ch_def c_res_def c_sz_def c_last_def chunk_events_def single_transfer_def)
  have tr1: "trace s1 = trace s @ [Ret (F_read i buf n) (next_reply s)]"
    using f_read_eq [OF fr] by simp
  have n_le: "n \<le> bytes"
    by (simp add: n_def chunk_size_def)
  have n_pos: "0 < bytes \<Longrightarrow> 0 < n"
    by (simp add: n_def chunk_size_def MAX_IO_SIZE_def)
  show ?case
  proof (cases "res = FR_OK \<and> sz \<noteq> 0 \<and> \<not> n < sz \<and> \<not> sz < n \<and> 0 < bytes - sz")
    case True
    have step: "read_loop c i cnt buf bytes tot s
                = read_loop c i cnt (buf + sz) (bytes - sz) (tot + sz) s1"
      using True fr by (subst read_loop.simps) (simp add: Let_def n_def [symmetric])
    from True have "\<exists>cs evs.
        trace (snd (read_loop c i cnt (buf + sz) (bytes - sz) (tot + sz) s1)) = trace s1 @ evs
        \<and> filter is_loop_event evs = concat (map (chunk_events F_read i) cs)
        \<and> cs \<noteq> [] \<and> chunk_args c cnt (buf + sz) (bytes - sz) cs \<and> chunks_full (bytes - sz) cs
        \<and> read_outcome (bytes - sz) (tot + sz) cs
             (read_loop c i cnt (buf + sz) (bytes - sz) (tot + sz) s1)
        \<and> list_all single_transfer cs"
      by (intro "1.IH" [OF n_def fr [symmetric] refl]) simp_all
    then obtain cs evs where
      t: "trace (snd (read_loop c i cnt (buf + sz) (bytes - sz) (tot + sz) s1)) = trace s1 @ evs"
      and f: "filter is_loop_event evs = concat (map (chunk_events F_read i) cs)"
      and ne: "cs \<noteq> []"
      and ca: "chunk_args c cnt (buf + sz) (bytes - sz) cs"
      and cf: "chunks_full (bytes - sz) cs"
      and ro: "read_outcome (bytes - sz) (tot + sz) cs
                 (read_loop c i cnt (buf + sz) (bytes - sz) (tot + sz) s1)"
      and one: "list_all single_transfer cs"
      by blast
    have szn: "sz = n" "0 < sz" "sz < bytes"
      using True by auto
    have A: "trace (snd (read_loop c i cnt buf bytes tot s))
            = trace s @ (Ret (F_read i buf n) (next_reply s) # evs)"
      by (simp add: step t tr1)
    have B: "filter is_loop_event (Ret (F_read i buf n) (next_reply s) # evs)
            = concat (map (chunk_events F_read i) (ch # cs))"
      by (simp add: f ch)
    have C: "chunk_args c cnt buf bytes (ch # cs)"
      using ca by (intro chunk_args_Cons) (simp_all add: ch n_def)
    have D: "chunks_full bytes (ch # cs)"
      using cf ne True szn by (intro chunks_full_Cons) (simp_all add: ch)
    have E: "read_outcome bytes tot (ch # cs) (read_loop c i cnt buf bytes tot s)"
      using ro ne szn by (simp add: step read_outcome_Cons ch)
    have F: "ch # cs \<noteq> []"
      by simp
    have G: "list_all single_transfer (ch # cs)"
      using one by (simp add: ch)
    show ?thesis
      by (intro exI conjI) (rule A, rule B, rule F, rule C, rule D, rule E, rule G)
  next
    case False
    have stop: "read_loop c i cnt buf bytes tot s =
        (if res \<noteq> FR_OK then (- 1, s1\<lparr>errno := fatfs_to_errno res\<rparr>)
         else if sz = 0 then (of_nat tot, s1)
         else if n < sz then (- 1, s1\<lparr>errno := EIO\<rparr>)
         else (of_nat (tot + sz), s1))"
      using False fr by (subst read_loop.simps) (auto simp add: Let_def n_def [symmetric])
    have A: "trace (snd (read_loop c i cnt buf bytes tot s))
            = trace s @ [Ret (F_read i buf n) (next_reply s)]"
      by (simp add: stop tr1)
    have B: "filter is_loop_event [Ret (F_read i buf n) (next_reply s)]
            = concat (map (chunk_events F_read i) [ch])"
      by (simp add: ch)
    have C: "chunk_args c cnt buf bytes [ch]"
      by (intro chunk_args_single) (simp_all add: ch n_def)
    have E: "read_outcome bytes tot [ch] (read_loop c i cnt buf bytes tot s)"
      using False n_le n_pos by (auto simp add: stop read_outcome_def ch moved_def)
    have F: "[ch] \<noteq> []"
      by simp
    have G: "list_all single_transfer [ch]"
      by (simp add: ch)
    show ?thesis
      by (intro exI conjI) (rule A, rule B, rule F, rule C, rule chunks_full_single, rule E, rule G)
  qed
qed

text \<open>A step from \<open>s\<close> to \<open>s'\<close> that makes no transfer and no restart of the media
  session.\<close>

definition quiet :: "fat_state \<Rightarrow> fat_state \<Rightarrow> bool" where
  "quiet s s' = (\<exists>evs. trace s' = trace s @ evs \<and> filter is_loop_event evs = [])"

lemma quiet_refl [simp]: "quiet s s"
  by (simp add: quiet_def)

lemma quiet_trans: "quiet s s' \<Longrightarrow> quiet s' s'' \<Longrightarrow> quiet s s''"
  by (auto simp add: quiet_def)

lemma quiet_reopen_slot: "quiet s (reopen_slot i s)"
  by (auto simp add: quiet_def reopen_slot_def prim_defs Let_def split: option.splits)

lemma quiet_fold_reopen: "quiet s (fold reopen_slot is s)"
proof (induction "is" arbitrary: s)
  case Nil
  show ?case by simp
next
  case (Cons i "is")
  show ?case
    using quiet_trans [OF quiet_reopen_slot Cons] by simp
qed

text \<open>Among the events of a recovery, the only one of a loop is the restart of the media
  session.\<close>

lemma remount_loop_events:
  "\<exists>evs. trace (snd (remount_file_system s)) = trace s @ evs
     \<and> filter is_loop_event evs = [Ret Sdcard_retry (next_reply s)]"
proof -
  define s1 where "s1 = (if \<not> remount_needed s then sdcard_stop (tell (Expect_delay 3000) s)
                         else tell (Expect_delay 3000) s)"
  define s2 where "s2 = snd (ask Sdcard_retry s1)"
  define pre where "pre = Void (Expect_delay 3000)
      # (if \<not> remount_needed s then [Void Sdcard_stop] else [])"
  have t2: "trace s2 = trace s @ pre @ [Ret Sdcard_retry (next_reply s)]"
    by (simp add: s2_def s1_def pre_def ask_def tell_def sdcard_stop_def next_reply_def)
  have r: "snd (remount_file_system s) =
          (if r_ok (next_reply s) then fold reopen_slot [0..<MAX_FILES] (s2\<lparr>remount_needed := False\<rparr>)
           else s2\<lparr>remount_needed := True\<rparr>)"
    by (simp add: remount_file_system_def Let_def s1_def s2_def sdcard_retry_def ask_def
        tell_def sdcard_stop_def next_reply_def)
  from quiet_fold_reopen [of "s2\<lparr>remount_needed := False\<rparr>" "[0..<MAX_FILES]"]
  obtain evq where q: "trace (fold reopen_slot [0..<MAX_FILES] (s2\<lparr>remount_needed := False\<rparr>))
                         = trace s2 @ evq" "filter is_loop_event evq = []"
    by (auto simp add: quiet_def)
  show ?thesis
  proof (cases "r_ok (next_reply s)")
    case True
    then have "trace (snd (remount_file_system s))
                 = trace s @ (pre @ [Ret Sdcard_retry (next_reply s)] @ evq)"
      by (simp add: r q(1) t2)
    moreover have "filter is_loop_event (pre @ [Ret Sdcard_retry (next_reply s)] @ evq)
                 = [Ret Sdcard_retry (next_reply s)]"
      by (simp add: pre_def q(2))
    ultimately show ?thesis by blast
  next
    case False
    then have "trace (snd (remount_file_system s))
                 = trace s @ (pre @ [Ret Sdcard_retry (next_reply s)])"
      by (simp add: r t2)
    moreover have "filter is_loop_event (pre @ [Ret Sdcard_retry (next_reply s)])
                 = [Ret Sdcard_retry (next_reply s)]"
      by (simp add: pre_def)
    ultimately show ?thesis by blast
  qed
qed

lemma write_chunk_run:
  assumes "write_chunk c i buf n s = (res, sz, s1)"
  shows "\<exists>ch evs. trace s1 = trace s @ evs
           \<and> filter is_loop_event evs = chunk_events F_write i ch
           \<and> c_buf ch = buf \<and> c_n ch = n \<and> c_res ch = res \<and> c_sz ch = sz
           \<and> retry_of_device_error c ch"
proof -
  obtain res1 sz1 t1 where fw: "f_write i buf n s = (res1, sz1, t1)"
    by (cases "f_write i buf n s") auto
  have fw': "res1 = r_res (next_reply s)" "sz1 = r_cnt (next_reply s)"
    "trace t1 = trace s @ [Ret (F_write i buf n) (next_reply s)]"
    using fw by (auto simp add: prim_defs)
  show ?thesis
  proof (cases "res1 = FR_DISK_ERR \<and> RETRY_ALLOWED c")
    case False
    let ?ch = "\<lparr>c_buf = buf, c_n = n, c_reply = next_reply s, c_restart = None, c_again = None\<rparr>"
    from False have "(res, sz, s1) = (res1, sz1, t1)"
      using assms fw by (auto simp add: write_chunk_def)
    then show ?thesis
      using fw' False
      by (intro exI [of _ ?ch] exI [of _ "[Ret (F_write i buf n) (next_reply s)]"])
         (simp add: chunk_events_def c_res_def c_sz_def c_last_def retry_of_device_error_def)
  next
    case True
    let ?t1' = "tell (Delay 100) t1"
    let ?t2 = "snd (remount_file_system ?t1')"
    let ?rr = "next_reply ?t1'"
    from remount_loop_events [of ?t1'] obtain evr where
      evr: "trace ?t2 = trace ?t1' @ evr" "filter is_loop_event evr = [Ret Sdcard_retry ?rr]"
      by blast
    have t2: "trace ?t2 = trace s @ Ret (F_write i buf n) (next_reply s) # Void (Delay 100) # evr"
      using evr(1) by (simp add: fw'(3) tell_def)
    have ok: "fst (remount_file_system ?t1') = r_ok ?rr"
      by (rule remount_fst)
    show ?thesis
    proof (cases "r_ok ?rr")
      case False
      let ?ch = "\<lparr>c_buf = buf, c_n = n, c_reply = next_reply s, c_restart = Some ?rr,
                  c_again = None\<rparr>"
      from False have "(res, sz, s1) = (res1, sz1, ?t2)"
        using assms fw True ok by (auto simp add: write_chunk_def split: prod.splits)
      then show ?thesis
        using fw' t2 evr(2) True False
        by (intro exI [of _ ?ch]
              exI [of _ "Ret (F_write i buf n) (next_reply s) # Void (Delay 100) # evr"])
           (simp add: chunk_events_def c_res_def c_sz_def c_last_def retry_of_device_error_def)
    next
      case good: True
      let ?ch = "\<lparr>c_buf = buf, c_n = n, c_reply = next_reply s, c_restart = Some ?rr,
                  c_again = Some (next_reply ?t2)\<rparr>"
      from good have eq: "(res, sz, s1) = f_write i buf n ?t2"
        using assms fw True ok by (auto simp add: write_chunk_def split: prod.splits)
      have "res = r_res (next_reply ?t2)" "sz = r_cnt (next_reply ?t2)"
        "trace s1 = trace ?t2 @ [Ret (F_write i buf n) (next_reply ?t2)]"
        using eq [symmetric] by (auto simp add: prim_defs)
      then show ?thesis
        using fw' t2 evr(2) True good
        by (intro exI [of _ ?ch]
              exI [of _ "Ret (F_write i buf n) (next_reply s) # Void (Delay 100) # evr
                         @ [Ret (F_write i buf n) (next_reply ?t2)]"])
           (simp add: chunk_events_def c_res_def c_sz_def c_last_def retry_of_device_error_def)
    qed
  qed
qed

text \<open>
  What \<^verbatim>\<open>write\<close> returns, from its last chunk: \<open>-1\<close> and \<open>EIO\<close> when the chunk moved
  nothing or more than asked for, \<open>-1\<close> and the translated error when the library failed,
  otherwise the bytes moved by all chunks.
\<close>

definition write_outcome :: "nat \<Rightarrow> nat \<Rightarrow> chunk list \<Rightarrow> 32 word \<times> fat_state \<Rightarrow> bool" where
  "write_outcome bytes tot cs rs =
     (if c_sz (last cs) = 0 \<or> c_n (last cs) < c_sz (last cs)
      then fst rs = - 1 \<and> errno (snd rs) = EIO
      else if c_res (last cs) \<noteq> FR_OK
      then fst rs = - 1 \<and> errno (snd rs) = fatfs_to_errno (c_res (last cs))
      else fst rs = of_nat (tot + moved cs (length cs)) \<and> moved cs (length cs) \<le> bytes
           \<and> (c_sz (last cs) < c_n (last cs) \<or> moved cs (length cs) = bytes))"

lemma write_outcome_Cons:
  assumes "write_outcome (bytes - c_sz ch) (tot + c_sz ch) cs rs" and "cs \<noteq> []" and "c_sz ch \<le> bytes"
  shows "write_outcome bytes tot (ch # cs) rs"
  using assms by (auto simp add: write_outcome_def add.assoc split: if_splits)

lemma write_loop_run:
  "\<exists>cs evs. trace (snd (write_loop c i cnt buf bytes tot s)) = trace s @ evs
     \<and> filter is_loop_event evs = concat (map (chunk_events F_write i) cs)
     \<and> cs \<noteq> [] \<and> chunk_args c cnt buf bytes cs \<and> chunks_full bytes cs
     \<and> write_outcome bytes tot cs (write_loop c i cnt buf bytes tot s)
     \<and> list_all (retry_of_device_error c) cs"
proof (induction c i cnt buf bytes tot s rule: write_loop.induct)
  case (1 c i cnt buf bytes tot s)
  define n where "n = chunk_size c cnt buf bytes"
  obtain res sz s1 where wc: "write_chunk c i buf n s = (res, sz, s1)"
    by (cases "write_chunk c i buf n s") auto
  from write_chunk_run [OF wc] obtain ch ev1 where
    tr1: "trace s1 = trace s @ ev1"
    and f1: "filter is_loop_event ev1 = chunk_events F_write i ch"
    and ch: "c_buf ch = buf" "c_n ch = n" "c_res ch = res" "c_sz ch = sz"
    and rt: "retry_of_device_error c ch"
    by blast
  have n_le: "n \<le> bytes"
    by (simp add: n_def chunk_size_def)
  have n_pos: "0 < bytes \<Longrightarrow> 0 < n"
    by (simp add: n_def chunk_size_def MAX_IO_SIZE_def)
  show ?case
  proof (cases "res = FR_OK \<and> sz \<noteq> 0 \<and> \<not> n < sz \<and> \<not> sz < n \<and> 0 < bytes - sz")
    case True
    have step: "write_loop c i cnt buf bytes tot s
                = write_loop c i cnt (buf + sz) (bytes - sz) (tot + sz) s1"
      using True wc by (subst write_loop.simps) (simp add: Let_def n_def [symmetric])
    from True have "\<exists>cs evs.
        trace (snd (write_loop c i cnt (buf + sz) (bytes - sz) (tot + sz) s1)) = trace s1 @ evs
        \<and> filter is_loop_event evs = concat (map (chunk_events F_write i) cs)
        \<and> cs \<noteq> [] \<and> chunk_args c cnt (buf + sz) (bytes - sz) cs \<and> chunks_full (bytes - sz) cs
        \<and> write_outcome (bytes - sz) (tot + sz) cs
             (write_loop c i cnt (buf + sz) (bytes - sz) (tot + sz) s1)
        \<and> list_all (retry_of_device_error c) cs"
      by (intro "1.IH" [OF n_def wc [symmetric] refl]) simp_all
    then obtain cs evs where
      t: "trace (snd (write_loop c i cnt (buf + sz) (bytes - sz) (tot + sz) s1)) = trace s1 @ evs"
      and f: "filter is_loop_event evs = concat (map (chunk_events F_write i) cs)"
      and ne: "cs \<noteq> []"
      and ca: "chunk_args c cnt (buf + sz) (bytes - sz) cs"
      and cf: "chunks_full (bytes - sz) cs"
      and ro: "write_outcome (bytes - sz) (tot + sz) cs
                 (write_loop c i cnt (buf + sz) (bytes - sz) (tot + sz) s1)"
      and rts: "list_all (retry_of_device_error c) cs"
      by blast
    have szn: "sz = n" "0 < sz" "sz < bytes"
      using True by auto
    have A: "trace (snd (write_loop c i cnt buf bytes tot s)) = trace s @ (ev1 @ evs)"
      by (simp add: step t tr1)
    have B: "filter is_loop_event (ev1 @ evs) = concat (map (chunk_events F_write i) (ch # cs))"
      by (simp add: f f1)
    have C: "chunk_args c cnt buf bytes (ch # cs)"
      using ca by (intro chunk_args_Cons) (simp_all add: ch n_def)
    have D: "chunks_full bytes (ch # cs)"
      using cf ne True szn by (intro chunks_full_Cons) (simp_all add: ch)
    have E: "write_outcome bytes tot (ch # cs) (write_loop c i cnt buf bytes tot s)"
      using ro ne szn by (simp add: step write_outcome_Cons ch)
    have F: "ch # cs \<noteq> []"
      by simp
    have G: "list_all (retry_of_device_error c) (ch # cs)"
      using rts rt by simp
    show ?thesis
      by (intro exI conjI) (rule A, rule B, rule F, rule C, rule D, rule E, rule G)
  next
    case False
    have stop: "write_loop c i cnt buf bytes tot s =
        (if n < sz \<or> sz = 0 then (- 1, s1\<lparr>errno := EIO\<rparr>)
         else if res \<noteq> FR_OK then (- 1, s1\<lparr>errno := fatfs_to_errno res\<rparr>)
         else (of_nat (tot + sz), s1))"
      using False wc by (subst write_loop.simps) (auto simp add: Let_def n_def [symmetric])
    have A: "trace (snd (write_loop c i cnt buf bytes tot s)) = trace s @ ev1"
      by (simp add: stop tr1)
    have B: "filter is_loop_event ev1 = concat (map (chunk_events F_write i) [ch])"
      by (simp add: f1)
    have C: "chunk_args c cnt buf bytes [ch]"
      by (intro chunk_args_single) (simp_all add: ch n_def)
    have E: "write_outcome bytes tot [ch] (write_loop c i cnt buf bytes tot s)"
      using False n_le n_pos by (auto simp add: stop write_outcome_def ch moved_def)
    have F: "[ch] \<noteq> []"
      by simp
    have G: "list_all (retry_of_device_error c) [ch]"
      using rt by simp
    show ?thesis
      by (intro exI conjI) (rule A, rule B, rule F, rule C, rule chunks_full_single, rule E, rule G)
  qed
qed

lemma chunk_args_Nil [simp]: "chunk_args c cnt buf bytes []"
  by (simp add: chunk_args_def)

lemma chunks_full_Nil [simp]: "chunks_full bytes []"
  by (simp add: chunks_full_def)

text \<open>
  The state in which the body of an operation starts, after the checks at its entry:
  the recovered state when file operations are allowed and a remount was needed, the
  state itself otherwise.  The entry of \<open>read\<close> and \<open>write\<close> fails when file operations
  are not allowed, when the recovery fails, or when the descriptor does not name an
  occupied slot.
\<close>

definition entered :: "context_t \<Rightarrow> fat_state \<Rightarrow> fat_state" where
  "entered c s =
     (if file_op_allowed c \<and> remount_needed s then snd (remount_file_system s) else s)"

definition bad_descriptor :: "fat_state \<Rightarrow> int \<Rightarrow> bool" where
  "bad_descriptor s fd = (fd < 0 \<or> int MAX_FILES \<le> fd \<or> file_table s ! nat fd = None)"

definition entry_fails :: "context_t \<Rightarrow> fat_state \<Rightarrow> int \<Rightarrow> bool" where
  "entry_fails c s fd =
     (\<not> file_op_allowed c \<or> (remount_needed s \<and> \<not> r_ok (next_reply s))
      \<or> bad_descriptor (entered c s) fd)"

lemma fileno_to_fatfs_exact:
  "fileno_to_fatfs fd s =
     (if bad_descriptor s fd then (None, s\<lparr>errno := EBADF\<rparr>) else (Some (nat fd), s))"
  by (simp add: fileno_to_fatfs_def fileno_to_stream_def bad_descriptor_def split: option.splits)

lemma bad_descriptor_frame [simp]:
  "bad_descriptor (s\<lparr>errno := e\<rparr>) fd = bad_descriptor s fd"
  "bad_descriptor (s\<lparr>mem := m\<rparr>) fd = bad_descriptor s fd"
  by (simp_all add: bad_descriptor_def)

lemma reopen_slot_errno: "reopen_slot i (s\<lparr>errno := e\<rparr>) = (reopen_slot i s)\<lparr>errno := e\<rparr>"
  by (simp add: reopen_slot_def prim_defs Let_def split: option.splits)

lemma fold_reopen_errno:
  "fold reopen_slot is (s\<lparr>errno := e\<rparr>) = (fold reopen_slot is s)\<lparr>errno := e\<rparr>"
  by (induction "is" arbitrary: s) (simp_all add: reopen_slot_errno)

lemma remount_errno:
  "remount_file_system (s\<lparr>errno := e\<rparr>)
     = (fst (remount_file_system s), (snd (remount_file_system s))\<lparr>errno := e\<rparr>)"
proof -
  have A: "s\<lparr>errno := e, script := a, trace := b, remount_needed := f\<rparr>
             = (s\<lparr>script := a, trace := b, remount_needed := f\<rparr>)\<lparr>errno := e\<rparr>" for a b f
    by simp
  show ?thesis
    by (simp add: remount_file_system_def Let_def prim_defs A fold_reopen_errno)
qed

lemma entered_errno: "entered c (s\<lparr>errno := e\<rparr>) = (entered c s)\<lparr>errno := e\<rparr>"
  by (simp add: entered_def remount_errno)

lemma entry_fails_errno: "entry_fails c (s\<lparr>errno := e\<rparr>) fd = entry_fails c s fd"
  by (simp add: entry_fails_def entered_errno next_reply_def)

lemma CHECK_REMOUNT_entered:
  assumes "file_op_allowed c"
  shows "CHECK_REMOUNT s fail k =
     (if remount_needed s \<and> \<not> r_ok (next_reply s) then (fail, (entered c s)\<lparr>errno := EIO\<rparr>)
      else k (entered c s))"
proof (cases "remount_needed s")
  case False
  then show ?thesis
    by (simp add: CHECK_REMOUNT_def entered_def)
next
  case True
  then show ?thesis
    using assms remount_fst [of s]
    by (cases "remount_file_system s") (auto simp add: CHECK_REMOUNT_def entered_def)
qed

lemma entered_no_transfer:
  "\<exists>pre. trace (entered c s) = trace s @ pre \<and> filter is_transfer pre = []"
proof (cases "file_op_allowed c \<and> remount_needed s")
  case False
  then show ?thesis
    by (auto simp add: entered_def)
next
  case True
  from remount_loop_events [of s] obtain evs where
    e: "trace (snd (remount_file_system s)) = trace s @ evs"
      "filter is_loop_event evs = [Ret Sdcard_retry (next_reply s)]"
    by blast
  have "filter is_transfer evs = filter is_transfer (filter is_loop_event evs)"
  proof -
    have "is_transfer x \<Longrightarrow> is_loop_event x" for x
      by (cases x rule: is_transfer.cases) simp_all
    then have "(\<lambda>x. is_loop_event x \<and> is_transfer x) = is_transfer"
      by auto
    then show ?thesis
      by simp
  qed
  then have "filter is_transfer evs = []"
    by (simp add: e(2))
  then show ?thesis
    using True e(1) by (auto simp add: entered_def)
qed

lemma FATFS_read_run:
  "\<exists>cs evs. trace (snd (FATFS_read c s fd buf cnt)) = trace (entered c s) @ evs
     \<and> filter is_loop_event evs = concat (map (chunk_events F_read (nat fd)) cs)
     \<and> chunk_args c (unat cnt) buf (unat cnt) cs \<and> chunks_full (unat cnt) cs
     \<and> (cs = []) = entry_fails c s fd
     \<and> (if cs = [] then fst (FATFS_read c s fd buf cnt) = - 1
         else read_outcome (unat cnt) 0 cs (FATFS_read c s fd buf cnt))
     \<and> list_all single_transfer cs"
proof -
  let ?R = "FATFS_read c s fd buf cnt"
  let ?e = "entered c s"
  define s0 where "s0 = (if cnt > 0 then ?e\<lparr>mem := (mem ?e)(buf := 0)\<rparr> else ?e)\<lparr>errno := E_NONE\<rparr>"
  have s0: "trace s0 = trace ?e" "bad_descriptor s0 fd = bad_descriptor ?e fd"
    by (simp_all add: s0_def)
  have none: ?thesis
    if "fst ?R = - 1" "trace (snd ?R) = trace ?e" "entry_fails c s fd"
    using that by (intro exI [of _ "[]"]) simp
  show ?thesis
  proof (cases "file_op_allowed c")
    case False
    then show ?thesis
      by (intro none) (simp_all add: FATFS_read_def entered_def entry_fails_def)
  next
    case True
    have R: "?R = (if remount_needed s \<and> \<not> r_ok (next_reply s) then (- 1, ?e\<lparr>errno := EIO\<rparr>)
                   else case fileno_to_fatfs fd s0 of
                          (None, s1) \<Rightarrow> (- 1, s1)
                        | (Some i, s1) \<Rightarrow> read_loop c i (unat cnt) buf (unat cnt) 0 s1)"
      using True by (simp add: FATFS_read_def CHECK_REMOUNT_entered [OF True] s0_def Let_def)
    show ?thesis
    proof (cases "remount_needed s \<and> \<not> r_ok (next_reply s)")
      case True
      then show ?thesis
        by (intro none) (simp_all add: R entry_fails_def)
    next
      case pass: False
      show ?thesis
      proof (cases "bad_descriptor ?e fd")
        case True
        then show ?thesis
          using pass by (intro none) (simp_all add: R fileno_to_fatfs_exact s0 entry_fails_def)
      next
        case False
        have R': "?R = read_loop c (nat fd) (unat cnt) buf (unat cnt) 0 s0"
          using pass False by (auto simp add: R fileno_to_fatfs_exact s0)
        have ok: "\<not> entry_fails c s fd"
          using pass False \<open>file_op_allowed c\<close> by (simp add: entry_fails_def)
        from read_loop_run [of c "nat fd" "unat cnt" buf "unat cnt" 0 s0]
        obtain cs evs where
          "trace (snd ?R) = trace s0 @ evs"
          "filter is_loop_event evs = concat (map (chunk_events F_read (nat fd)) cs)"
          "cs \<noteq> []" "chunk_args c (unat cnt) buf (unat cnt) cs" "chunks_full (unat cnt) cs"
          "read_outcome (unat cnt) 0 cs ?R" "list_all single_transfer cs"
          unfolding R' by blast
        then show ?thesis
          using ok by (intro exI [of _ cs] exI [of _ evs]) (simp add: s0)
      qed
    qed
  qed
qed

lemma FATFS_write_run:
  "\<exists>cs evs. trace (snd (FATFS_write c s fd buf cnt)) = trace (entered c s) @ evs
     \<and> filter is_loop_event evs = concat (map (chunk_events F_write (nat fd)) cs)
     \<and> chunk_args c (unat cnt) buf (unat cnt) cs \<and> chunks_full (unat cnt) cs
     \<and> (cs = []) = entry_fails c s fd
     \<and> (if cs = [] then fst (FATFS_write c s fd buf cnt) = - 1
         else write_outcome (unat cnt) 0 cs (FATFS_write c s fd buf cnt))
     \<and> list_all (retry_of_device_error c) cs"
proof -
  let ?W = "FATFS_write c s fd buf cnt"
  let ?e = "entered c s"
  define s0 where "s0 = ?e\<lparr>errno := E_NONE\<rparr>"
  have s0: "trace s0 = trace ?e" "bad_descriptor s0 fd = bad_descriptor ?e fd"
    by (simp_all add: s0_def)
  have none: ?thesis
    if "fst ?W = - 1" "trace (snd ?W) = trace ?e" "entry_fails c s fd"
    using that by (intro exI [of _ "[]"]) simp
  show ?thesis
  proof (cases "file_op_allowed c")
    case False
    then show ?thesis
      by (intro none) (simp_all add: FATFS_write_def entered_def entry_fails_def)
  next
    case True
    have W: "?W = (if remount_needed s \<and> \<not> r_ok (next_reply s) then (- 1, s0\<lparr>errno := EIO\<rparr>)
                   else case fileno_to_fatfs fd s0 of
                          (None, s1) \<Rightarrow> (- 1, s1)
                        | (Some i, s1) \<Rightarrow> write_loop c i (unat cnt) buf (unat cnt) 0 s1)"
      using True
      by (simp add: FATFS_write_def CHECK_REMOUNT_entered [OF True] s0_def Let_def
          entered_errno next_reply_def)
    show ?thesis
    proof (cases "remount_needed s \<and> \<not> r_ok (next_reply s)")
      case True
      then show ?thesis
        by (intro none) (simp_all add: W entry_fails_def s0)
    next
      case pass: False
      show ?thesis
      proof (cases "bad_descriptor ?e fd")
        case True
        then show ?thesis
          using pass by (intro none) (simp_all add: W fileno_to_fatfs_exact s0 entry_fails_def)
      next
        case False
        have W': "?W = write_loop c (nat fd) (unat cnt) buf (unat cnt) 0 s0"
          using pass False by (auto simp add: W fileno_to_fatfs_exact s0)
        have ok: "\<not> entry_fails c s fd"
          using pass False \<open>file_op_allowed c\<close> by (simp add: entry_fails_def)
        from write_loop_run [of c "nat fd" "unat cnt" buf "unat cnt" 0 s0]
        obtain cs evs where
          "trace (snd ?W) = trace s0 @ evs"
          "filter is_loop_event evs = concat (map (chunk_events F_write (nat fd)) cs)"
          "cs \<noteq> []" "chunk_args c (unat cnt) buf (unat cnt) cs" "chunks_full (unat cnt) cs"
          "write_outcome (unat cnt) 0 cs ?W" "list_all (retry_of_device_error c) cs"
          unfolding W' by blast
        then show ?thesis
          using ok by (intro exI [of _ cs] exI [of _ evs]) (simp add: s0)
      qed
    qed
  qed
qed

text \<open>
  The chunks of a request: each starts where the bytes moved so far end and asks for what
  is left of the request, or for at most \<open>MAX_IO_SIZE\<close> bytes of it when the buffer fails
  the transfer-safety test there.
\<close>

definition clamped_chunks :: "context_t \<Rightarrow> nat \<Rightarrow> nat \<Rightarrow> chunk list \<Rightarrow> bool" where
  "clamped_chunks c cnt buf cs =
     (\<forall>j<length cs. c_buf (cs ! j) = buf + moved cs j
        \<and> c_n (cs ! j) = (if mem_is_dma_safe c (buf + moved cs j) cnt then cnt - moved cs j
                          else min (cnt - moved cs j) MAX_IO_SIZE)
        \<and> (\<not> mem_is_dma_safe c (buf + moved cs j) cnt \<longrightarrow> c_n (cs ! j) \<le> MAX_IO_SIZE))"

lemma chunk_args_clamped:
  "chunk_args c cnt buf cnt cs \<Longrightarrow> clamped_chunks c cnt buf cs"
  by (simp add: chunk_args_def clamped_chunks_def chunk_size_def)

lemma moved_all: "moved cs (length cs) = sum_list (map c_sz cs)"
  by (simp add: moved_def)

lemma unat_total:
  "m \<le> unat (cnt :: 32 word) \<Longrightarrow> unat (of_nat m :: 32 word) = m"
proof -
  assume "m \<le> unat cnt"
  moreover have "unat cnt < 2 ^ 32"
    using unsigned_less [of cnt] by simp
  ultimately have "m < 2 ^ 32" by simp
  then show ?thesis
    by (simp add: unat_of_nat)
qed

lemma read_outcome_total:
  "read_outcome (unat cnt) 0 cs rs \<Longrightarrow> fst rs \<noteq> - 1 \<Longrightarrow>
   unat (fst rs) = sum_list (map c_sz cs) \<and> unat (fst rs) \<le> unat (cnt :: 32 word)"
  by (auto simp add: read_outcome_def moved_all unat_total split: if_splits)

lemma write_outcome_total:
  "write_outcome (unat cnt) 0 cs rs \<Longrightarrow> fst rs \<noteq> - 1 \<Longrightarrow>
   unat (fst rs) = sum_list (map c_sz cs) \<and> unat (fst rs) \<le> unat (cnt :: 32 word)"
  by (auto simp add: write_outcome_def moved_all unat_total split: if_splits)

text \<open>
  Claim C3, as amended.  The checks at the entry of \<open>read\<close> and \<open>write\<close> make no transfer.
  After them, the transfers and media restarts of the call are those of a list of
  chunks, in order.  The list is empty exactly when the entry fails (file operations are
  not allowed, the recovery at entry fails, or the descriptor is invalid), and the call
  then returns \<open>-1\<close>.  A chunk of \<open>read\<close> is one transfer.  A chunk of \<open>write\<close> is one
  transfer, followed by a recovery exactly when it returned a device error and a retry is
  allowed, and by a second transfer with the same arguments exactly when the media
  restart of that recovery succeeded.  Each chunk starts at the buffer address advanced
  by the bytes moved so far; where the buffer fails the transfer-safety test at that
  address it asks for what is left of the request, at most 4096 bytes.  Every chunk but
  the last succeeded (after its retry, for \<open>write\<close>), moved exactly what it asked for and
  left the request unfinished: so the loop stops at the first chunk that fails, moves
  fewer bytes than it asked for, or completes the request, and nothing follows it.  When
  the call returns a count, it is the sum of the counts of the chunks and does not exceed
  the request.
\<close>

theorem chunked_transfer:
  "(\<exists>pre. trace (entered c s) = trace s @ pre \<and> filter is_transfer pre = [])
   \<and> (\<exists>cs evs. trace (snd (FATFS_read c s fd buf cnt)) = trace (entered c s) @ evs
        \<and> filter is_loop_event evs = concat (map (chunk_events F_read (nat fd)) cs)
        \<and> list_all single_transfer cs
        \<and> (cs = []) = entry_fails c s fd
        \<and> clamped_chunks c (unat cnt) buf cs \<and> chunks_full (unat cnt) cs
        \<and> (if cs = [] then fst (FATFS_read c s fd buf cnt) = - 1
            else read_outcome (unat cnt) 0 cs (FATFS_read c s fd buf cnt))
        \<and> (fst (FATFS_read c s fd buf cnt) \<noteq> - 1 \<longrightarrow>
              unat (fst (FATFS_read c s fd buf cnt)) = sum_list (map c_sz cs)
              \<and> unat (fst (FATFS_read c s fd buf cnt)) \<le> unat cnt))
   \<and> (\<exists>cs evs. trace (snd (FATFS_write c s fd buf cnt)) = trace (entered c s) @ evs
        \<and> filter is_loop_event evs = concat (map (chunk_events F_write (nat fd)) cs)
        \<and> list_all (retry_of_device_error c) cs
        \<and> (cs = []) = entry_fails c s fd
        \<and> clamped_chunks c (unat cnt) buf cs \<and> chunks_full (unat cnt) cs
        \<and> (if cs = [] then fst (FATFS_write c s fd buf cnt) = - 1
            else write_outcome (unat cnt) 0 cs (FATFS_write c s fd buf cnt))
        \<and> (fst (FATFS_write c s fd buf cnt) \<noteq> - 1 \<longrightarrow>
              unat (fst (FATFS_write c s fd buf cnt)) = sum_list (map c_sz cs)
              \<and> unat (fst (FATFS_write c s fd buf cnt)) \<le> unat cnt))"
proof (intro conjI)
  show "\<exists>pre. trace (entered c s) = trace s @ pre \<and> filter is_transfer pre = []"
    by (rule entered_no_transfer)
next
  from FATFS_read_run [of c s fd buf cnt] obtain cs evs where
    r: "trace (snd (FATFS_read c s fd buf cnt)) = trace (entered c s) @ evs"
      "filter is_loop_event evs = concat (map (chunk_events F_read (nat fd)) cs)"
      "chunk_args c (unat cnt) buf (unat cnt) cs" "chunks_full (unat cnt) cs"
      "(cs = []) = entry_fails c s fd"
      "if cs = [] then fst (FATFS_read c s fd buf cnt) = - 1
       else read_outcome (unat cnt) 0 cs (FATFS_read c s fd buf cnt)"
      "list_all single_transfer cs"
    by blast
  have cl: "clamped_chunks c (unat cnt) buf cs"
    using r(3) by (rule chunk_args_clamped)
  have tot: "fst (FATFS_read c s fd buf cnt) \<noteq> - 1 \<longrightarrow>
              unat (fst (FATFS_read c s fd buf cnt)) = sum_list (map c_sz cs)
              \<and> unat (fst (FATFS_read c s fd buf cnt)) \<le> unat cnt"
    using r(6) read_outcome_total [of cnt cs "FATFS_read c s fd buf cnt"]
    by (cases "cs = []") auto
  show "\<exists>cs evs. trace (snd (FATFS_read c s fd buf cnt)) = trace (entered c s) @ evs
        \<and> filter is_loop_event evs = concat (map (chunk_events F_read (nat fd)) cs)
        \<and> list_all single_transfer cs
        \<and> (cs = []) = entry_fails c s fd
        \<and> clamped_chunks c (unat cnt) buf cs \<and> chunks_full (unat cnt) cs
        \<and> (if cs = [] then fst (FATFS_read c s fd buf cnt) = - 1
            else read_outcome (unat cnt) 0 cs (FATFS_read c s fd buf cnt))
        \<and> (fst (FATFS_read c s fd buf cnt) \<noteq> - 1 \<longrightarrow>
              unat (fst (FATFS_read c s fd buf cnt)) = sum_list (map c_sz cs)
              \<and> unat (fst (FATFS_read c s fd buf cnt)) \<le> unat cnt)"
    by (intro exI conjI)
       (rule r(1), rule r(2), rule r(7), rule r(5), rule cl, rule r(4), rule r(6), rule tot)
next
  from FATFS_write_run [of c s fd buf cnt] obtain cs evs where
    r: "trace (snd (FATFS_write c s fd buf cnt)) = trace (entered c s) @ evs"
      "filter is_loop_event evs = concat (map (chunk_events F_write (nat fd)) cs)"
      "chunk_args c (unat cnt) buf (unat cnt) cs" "chunks_full (unat cnt) cs"
      "(cs = []) = entry_fails c s fd"
      "if cs = [] then fst (FATFS_write c s fd buf cnt) = - 1
       else write_outcome (unat cnt) 0 cs (FATFS_write c s fd buf cnt)"
      "list_all (retry_of_device_error c) cs"
    by blast
  have cl: "clamped_chunks c (unat cnt) buf cs"
    using r(3) by (rule chunk_args_clamped)
  have tot: "fst (FATFS_write c s fd buf cnt) \<noteq> - 1 \<longrightarrow>
              unat (fst (FATFS_write c s fd buf cnt)) = sum_list (map c_sz cs)
              \<and> unat (fst (FATFS_write c s fd buf cnt)) \<le> unat cnt"
    using r(6) write_outcome_total [of cnt cs "FATFS_write c s fd buf cnt"]
    by (cases "cs = []") auto
  show "\<exists>cs evs. trace (snd (FATFS_write c s fd buf cnt)) = trace (entered c s) @ evs
        \<and> filter is_loop_event evs = concat (map (chunk_events F_write (nat fd)) cs)
        \<and> list_all (retry_of_device_error c) cs
        \<and> (cs = []) = entry_fails c s fd
        \<and> clamped_chunks c (unat cnt) buf cs \<and> chunks_full (unat cnt) cs
        \<and> (if cs = [] then fst (FATFS_write c s fd buf cnt) = - 1
            else write_outcome (unat cnt) 0 cs (FATFS_write c s fd buf cnt))
        \<and> (fst (FATFS_write c s fd buf cnt) \<noteq> - 1 \<longrightarrow>
              unat (fst (FATFS_write c s fd buf cnt)) = sum_list (map c_sz cs)
              \<and> unat (fst (FATFS_write c s fd buf cnt)) \<le> unat cnt)"
    by (intro exI conjI)
       (rule r(1), rule r(2), rule r(7), rule r(5), rule cl, rule r(4), rule r(6), rule tot)
qed

section \<open>Writes that move nothing or too much (claim C6)\<close>

lemma bad_chunk_is_last:
  assumes full: "chunks_full bytes cs" and mem: "ch \<in> set cs"
    and bad: "c_sz ch = 0 \<or> c_n ch < c_sz ch"
  shows "ch = last cs"
proof -
  from mem obtain j where j: "j < length cs" "cs ! j = ch"
    by (auto simp add: in_set_conv_nth)
  have "\<not> Suc j < length cs"
    using full bad j by (auto simp add: chunks_full_def)
  then have "j = length cs - 1"
    using j by simp
  moreover have "cs \<noteq> []"
    using j by auto
  ultimately show ?thesis
    using j by (auto simp add: last_conv_nth)
qed

lemma write_loop_bad_count:
  assumes "write_chunk c i buf (chunk_size c cnt buf bytes) s = (res, sz, s1)"
    and "sz = 0 \<or> chunk_size c cnt buf bytes < sz"
  shows "write_loop c i cnt buf bytes tot s = (- 1, s1\<lparr>errno := EIO\<rparr>)"
  using assms by (subst write_loop.simps) (auto simp add: Let_def)

text \<open>
  Claim C6, as amended.  In every turn of the loop of \<open>write\<close>, when the count left in
  \<^verbatim>\<open>size\<close> for the chunk is zero or exceeds the count asked for, the loop returns \<open>-1\<close>
  with \<^verbatim>\<open>errno\<close> \<open>EIO\<close>, whatever the result code.  For a whole call of \<open>write\<close>, whose
  transfers are those of a list of chunks: the count of a chunk (\<open>c_sz\<close>) is the one
  reported by its second transfer when the chunk was transferred again, by its only
  transfer otherwise; a chunk whose count is zero or exceeds what it asked for is the
  last one, and the call returns \<open>-1\<close> with \<open>EIO\<close>.  The count reported by a transfer
  that returned a device error and was made again is overwritten and not looked at.
\<close>

theorem write_bad_count_EIO:
  "(\<forall>res sz s1 bytes tot i a.
       write_chunk c i a (chunk_size c (unat cnt) a bytes) s = (res, sz, s1)
       \<and> (sz = 0 \<or> chunk_size c (unat cnt) a bytes < sz)
       \<longrightarrow> write_loop c i (unat cnt) a bytes tot s = (- 1, s1\<lparr>errno := EIO\<rparr>))
   \<and> (\<exists>cs evs. trace (snd (FATFS_write c s fd buf cnt)) = trace (entered c s) @ evs
        \<and> filter is_loop_event evs = concat (map (chunk_events F_write (nat fd)) cs)
        \<and> list_all (retry_of_device_error c) cs
        \<and> (cs = []) = entry_fails c s fd
        \<and> chunk_args c (unat cnt) buf (unat cnt) cs \<and> chunks_full (unat cnt) cs
        \<and> (\<forall>ch\<in>set cs. r_cnt (c_last ch) = 0 \<or> c_n ch < r_cnt (c_last ch) \<longrightarrow>
              ch = last cs
              \<and> fst (FATFS_write c s fd buf cnt) = - 1
              \<and> errno (snd (FATFS_write c s fd buf cnt)) = EIO))"
proof (rule conjI)
  show "\<forall>res sz s1 bytes tot i a.
       write_chunk c i a (chunk_size c (unat cnt) a bytes) s = (res, sz, s1)
       \<and> (sz = 0 \<or> chunk_size c (unat cnt) a bytes < sz)
       \<longrightarrow> write_loop c i (unat cnt) a bytes tot s = (- 1, s1\<lparr>errno := EIO\<rparr>)"
    using write_loop_bad_count by blast
next
  from FATFS_write_run [of c s fd buf cnt] obtain cs evs where
    r: "trace (snd (FATFS_write c s fd buf cnt)) = trace (entered c s) @ evs"
      "filter is_loop_event evs = concat (map (chunk_events F_write (nat fd)) cs)"
      "chunk_args c (unat cnt) buf (unat cnt) cs" "chunks_full (unat cnt) cs"
      "(cs = []) = entry_fails c s fd"
      "if cs = [] then fst (FATFS_write c s fd buf cnt) = - 1
       else write_outcome (unat cnt) 0 cs (FATFS_write c s fd buf cnt)"
      "list_all (retry_of_device_error c) cs"
    by blast
  have bad: "\<forall>ch\<in>set cs. r_cnt (c_last ch) = 0 \<or> c_n ch < r_cnt (c_last ch) \<longrightarrow>
              ch = last cs
              \<and> fst (FATFS_write c s fd buf cnt) = - 1
              \<and> errno (snd (FATFS_write c s fd buf cnt)) = EIO"
  proof (intro ballI impI)
    fix ch assume ch: "ch \<in> set cs" and "r_cnt (c_last ch) = 0 \<or> c_n ch < r_cnt (c_last ch)"
    then have b: "c_sz ch = 0 \<or> c_n ch < c_sz ch"
      by (simp add: c_sz_def)
    then have l: "ch = last cs"
      using ch r(4) bad_chunk_is_last by blast
    moreover have "cs \<noteq> []"
      using ch by auto
    ultimately have "fst (FATFS_write c s fd buf cnt) = - 1
              \<and> errno (snd (FATFS_write c s fd buf cnt)) = EIO"
      using r(6) b by (auto simp add: write_outcome_def)
    then show "ch = last cs
              \<and> fst (FATFS_write c s fd buf cnt) = - 1
              \<and> errno (snd (FATFS_write c s fd buf cnt)) = EIO"
      using l by simp
  qed
  show "\<exists>cs evs. trace (snd (FATFS_write c s fd buf cnt)) = trace (entered c s) @ evs
        \<and> filter is_loop_event evs = concat (map (chunk_events F_write (nat fd)) cs)
        \<and> list_all (retry_of_device_error c) cs
        \<and> (cs = []) = entry_fails c s fd
        \<and> chunk_args c (unat cnt) buf (unat cnt) cs \<and> chunks_full (unat cnt) cs
        \<and> (\<forall>ch\<in>set cs. r_cnt (c_last ch) = 0 \<or> c_n ch < r_cnt (c_last ch) \<longrightarrow>
              ch = last cs
              \<and> fst (FATFS_write c s fd buf cnt) = - 1
              \<and> errno (snd (FATFS_write c s fd buf cnt)) = EIO)"
    by (intro exI conjI)
       (rule r(1), rule r(2), rule r(7), rule r(5), rule r(3), rule r(4), rule bad)
qed

section \<open>Example runs of read and write\<close>

text \<open>A start state in which one file has been opened for reading (slot 0), followed by
  the replies \<open>rs\<close>.\<close>

definition one_file_open :: "reply list \<Rightarrow> fat_state" where
  "one_file_open rs =
     snd (FATFS_open io_thread (fat_init ([default_reply, default_reply, default_reply] @ rs))
            ''log.bin'' O_RDONLY False)"

text \<open>A start state in which one file has been opened for writing (slot 0), followed by
  the replies \<open>rs\<close>; and the two example states written out.\<close>

definition one_file_open_w :: "reply list \<Rightarrow> fat_state" where
  "one_file_open_w rs =
     snd (FATFS_open io_thread (fat_init ([default_reply, default_reply, default_reply] @ rs))
            ''log.bin'' (O_WRONLY OR O_CREAT) False)"

lemmas eval_defs = FATFS_read_def FATFS_write_def FATFS_open_def CHECK_REMOUNT_def
  remount_file_system_def reopen_slot_def new_file_descriptor_def fileno_to_fatfs_def
  fileno_to_stream_def free_file_descriptor_def write_chunk_def chunk_size_def prim_defs
  fat_init_def io_thread_def default_reply_def
  MAX_FILES_def MAX_IO_SIZE_def RETRY_ALLOWED_def
  O_RDONLY_def O_WRONLY_def O_RDWR_def O_ACCMODE_def O_APPEND_def O_CREAT_def O_TRUNC_def
  FA_READ_def FA_WRITE_def FA_CREATE_ALWAYS_def FA_OPEN_ALWAYS_def FIL_zero_def Let_def
  upt_rec

lemma one_file_open_w_eq:
  "one_file_open_w rs =
     \<lparr>remount_needed = False,
      file_table = (replicate 16 None)[0 := Some \<lparr>fobj = FIL_zero, name = ''log.bin''\<rparr>],
      format_status = IDLE, errno = E_NONE, mem = (\<lambda>_. 0), script = rs,
      trace = [Ret (Alloc ''FAT_FILE'') default_reply, Ret (Alloc ''name'') default_reply,
               Ret (F_open 0 ''log.bin'' 0x12) default_reply]\<rparr>"
  by (simp add: one_file_open_w_def eval_defs)

lemma one_file_open_eq:
  "one_file_open rs =
     \<lparr>remount_needed = False,
      file_table = (replicate 16 None)[0 := Some \<lparr>fobj = FIL_zero, name = ''log.bin''\<rparr>],
      format_status = IDLE, errno = E_NONE, mem = (\<lambda>_. 0), script = rs,
      trace = [Ret (Alloc ''FAT_FILE'') default_reply, Ret (Alloc ''name'') default_reply,
               Ret (F_open 0 ''log.bin'' 0x01) default_reply]\<rparr>"
  by (simp add: one_file_open_def eval_defs)

text \<open>A read of 10000 bytes on a buffer that is not safe: two full chunks and a short one.\<close>

definition three_reads :: "reply list" where
  "three_reads = [default_reply\<lparr>r_cnt := 4096\<rparr>, default_reply\<lparr>r_cnt := 4096\<rparr>,
                  default_reply\<lparr>r_cnt := 1000\<rparr>]"

lemma read_three_chunks:
  "fst (FATFS_read io_thread (one_file_open three_reads) 0 100 10000) = 9192"
  "trace (snd (FATFS_read io_thread (one_file_open three_reads) 0 100 10000))
     = trace (one_file_open three_reads)
       @ [Ret (F_read 0 100 4096) (default_reply\<lparr>r_cnt := 4096\<rparr>),
          Ret (F_read 0 4196 4096) (default_reply\<lparr>r_cnt := 4096\<rparr>),
          Ret (F_read 0 8292 1808) (default_reply\<lparr>r_cnt := 1000\<rparr>)]"
  by (simp_all add: three_reads_def one_file_open_eq eval_defs read_loop.simps)

text \<open>
  A write of 8192 bytes from a thread that may retry: the first \<^verbatim>\<open>f_write\<close> returns
  \<open>FR_DISK_ERR\<close>; the recovery succeeds (the media restart, then the reopening of slot
  0 and the seek); the same chunk is written again, then the second chunk.
\<close>

definition retried_write :: "reply list" where
  "retried_write = [default_reply\<lparr>r_res := FR_DISK_ERR\<rparr>, default_reply, default_reply,
        default_reply, default_reply\<lparr>r_cnt := 4096\<rparr>, default_reply\<lparr>r_cnt := 4096\<rparr>]"

lemma write_two_chunks:
  "fst (FATFS_write io_thread (one_file_open_w retried_write) 0 100 8192) = 8192"
  "trace (snd (FATFS_write io_thread (one_file_open_w retried_write) 0 100 8192))
     = trace (one_file_open_w retried_write)
       @ [Ret (F_write 0 100 4096) (default_reply\<lparr>r_res := FR_DISK_ERR\<rparr>),
          Void (Delay 100), Void (Expect_delay 3000), Void Sdcard_stop,
          Ret Sdcard_retry default_reply,
          Ret (F_open 0 ''log.bin'' 0) default_reply, Ret (F_lseek 0 0) default_reply,
          Ret (F_write 0 100 4096) (default_reply\<lparr>r_cnt := 4096\<rparr>),
          Ret (F_write 0 4196 4096) (default_reply\<lparr>r_cnt := 4096\<rparr>)]"
  by (simp_all add: retried_write_def one_file_open_w_eq eval_defs write_loop.simps)

lemma examples_enter:
  "entered io_thread (one_file_open rs) = one_file_open rs"
  "entered io_thread (one_file_open_w rs) = one_file_open_w rs"
  "\<not> entry_fails io_thread (one_file_open rs) 0"
  "\<not> entry_fails io_thread (one_file_open_w rs) 0"
  by (simp_all add: entry_fails_def entered_def bad_descriptor_def one_file_open_eq
      one_file_open_w_eq io_thread_def MAX_FILES_def)

text \<open>The theorem of claim C3 on that read and on that write: neither fails at its entry;
  the three chunks of the read add up to the 9192 bytes returned, the two chunks of the
  write to 8192.\<close>

theorem chunked_transfer_witness:
  "\<not> entry_fails io_thread (one_file_open three_reads) 0
   \<and> (\<exists>cs evs.
         trace (snd (FATFS_read io_thread (one_file_open three_reads) 0 100 10000))
           = trace (one_file_open three_reads) @ evs
       \<and> evs = [Ret (F_read 0 100 4096) (default_reply\<lparr>r_cnt := 4096\<rparr>),
                 Ret (F_read 0 4196 4096) (default_reply\<lparr>r_cnt := 4096\<rparr>),
                 Ret (F_read 0 8292 1808) (default_reply\<lparr>r_cnt := 1000\<rparr>)]
       \<and> filter is_loop_event evs = concat (map (chunk_events F_read 0) cs)
       \<and> list_all single_transfer cs \<and> cs \<noteq> []
       \<and> clamped_chunks io_thread 10000 100 cs \<and> chunks_full 10000 cs
       \<and> sum_list (map c_sz cs) = 9192)
   \<and> \<not> entry_fails io_thread (one_file_open_w retried_write) 0
   \<and> (\<exists>cs evs.
         trace (snd (FATFS_write io_thread (one_file_open_w retried_write) 0 100 8192))
           = trace (one_file_open_w retried_write) @ evs
       \<and> filter is_loop_event evs
           = [Ret (F_write 0 100 4096) (default_reply\<lparr>r_res := FR_DISK_ERR\<rparr>),
              Ret Sdcard_retry default_reply,
              Ret (F_write 0 100 4096) (default_reply\<lparr>r_cnt := 4096\<rparr>),
              Ret (F_write 0 4196 4096) (default_reply\<lparr>r_cnt := 4096\<rparr>)]
       \<and> filter is_loop_event evs = concat (map (chunk_events F_write 0) cs)
       \<and> list_all (retry_of_device_error io_thread) cs \<and> cs \<noteq> []
       \<and> clamped_chunks io_thread 8192 100 cs \<and> chunks_full 8192 cs
       \<and> sum_list (map c_sz cs) = 8192)"
proof -
  let ?Sr = "one_file_open three_reads"
  let ?Sw = "one_file_open_w retried_write"
  let ?R = "FATFS_read io_thread ?Sr 0 100 10000"
  let ?W = "FATFS_write io_thread ?Sw 0 100 8192"
  note T = chunked_transfer [where c = io_thread and s = ?Sr and fd = 0 and buf = 100
      and cnt = 10000]
  note U = chunked_transfer [where c = io_thread and s = ?Sw and fd = 0 and buf = 100
      and cnt = 8192]
  from T obtain cs evs where
    r: "trace (snd ?R) = trace (entered io_thread ?Sr) @ evs"
      "filter is_loop_event evs = concat (map (chunk_events F_read (nat 0)) cs)"
      "list_all single_transfer cs"
      "(cs = []) = entry_fails io_thread ?Sr 0"
      "clamped_chunks io_thread (unat (10000 :: 32 word)) 100 cs"
      "chunks_full (unat (10000 :: 32 word)) cs"
      "fst ?R \<noteq> - 1 \<longrightarrow> unat (fst ?R) = sum_list (map c_sz cs)"
    by blast
  from U obtain ds evw where
    w: "trace (snd ?W) = trace (entered io_thread ?Sw) @ evw"
      "filter is_loop_event evw = concat (map (chunk_events F_write (nat 0)) ds)"
      "list_all (retry_of_device_error io_thread) ds"
      "(ds = []) = entry_fails io_thread ?Sw 0"
      "clamped_chunks io_thread (unat (8192 :: 32 word)) 100 ds"
      "chunks_full (unat (8192 :: 32 word)) ds"
      "fst ?W \<noteq> - 1 \<longrightarrow> unat (fst ?W) = sum_list (map c_sz ds)"
    by blast
  have r1: "trace (snd ?R) = trace ?Sr @ evs"
    using r(1) by (simp add: examples_enter)
  have r2: "evs = [Ret (F_read 0 100 4096) (default_reply\<lparr>r_cnt := 4096\<rparr>),
                 Ret (F_read 0 4196 4096) (default_reply\<lparr>r_cnt := 4096\<rparr>),
                 Ret (F_read 0 8292 1808) (default_reply\<lparr>r_cnt := 1000\<rparr>)]"
    using r1 by (simp add: read_three_chunks(2))
  have r3: "filter is_loop_event evs = concat (map (chunk_events F_read 0) cs)"
    using r(2) by simp
  have r4: "cs \<noteq> []"
    using r(4) by (simp add: examples_enter)
  have r5: "clamped_chunks io_thread 10000 100 cs" "chunks_full 10000 cs"
    using r(5,6) by simp_all
  have r6: "sum_list (map c_sz cs) = 9192"
    using r(7) by (simp add: read_three_chunks(1))
  have w1: "trace (snd ?W) = trace ?Sw @ evw"
    using w(1) by (simp add: examples_enter)
  have "evw = [Ret (F_write 0 100 4096) (default_reply\<lparr>r_res := FR_DISK_ERR\<rparr>),
          Void (Delay 100), Void (Expect_delay 3000), Void Sdcard_stop,
          Ret Sdcard_retry default_reply,
          Ret (F_open 0 ''log.bin'' 0) default_reply, Ret (F_lseek 0 0) default_reply,
          Ret (F_write 0 100 4096) (default_reply\<lparr>r_cnt := 4096\<rparr>),
          Ret (F_write 0 4196 4096) (default_reply\<lparr>r_cnt := 4096\<rparr>)]"
    using w1 by (simp add: write_two_chunks(2))
  then have w2: "filter is_loop_event evw
           = [Ret (F_write 0 100 4096) (default_reply\<lparr>r_res := FR_DISK_ERR\<rparr>),
              Ret Sdcard_retry default_reply,
              Ret (F_write 0 100 4096) (default_reply\<lparr>r_cnt := 4096\<rparr>),
              Ret (F_write 0 4196 4096) (default_reply\<lparr>r_cnt := 4096\<rparr>)]"
    by simp
  have w3: "filter is_loop_event evw = concat (map (chunk_events F_write 0) ds)"
    using w(2) by simp
  have w4: "ds \<noteq> []"
    using w(4) by (simp add: examples_enter)
  have w5: "clamped_chunks io_thread 8192 100 ds" "chunks_full 8192 ds"
    using w(5,6) by simp_all
  have w6: "sum_list (map c_sz ds) = 8192"
    using w(7) by (simp add: write_two_chunks(1))
  have A: "\<exists>cs evs.
         trace (snd ?R) = trace ?Sr @ evs
       \<and> evs = [Ret (F_read 0 100 4096) (default_reply\<lparr>r_cnt := 4096\<rparr>),
                 Ret (F_read 0 4196 4096) (default_reply\<lparr>r_cnt := 4096\<rparr>),
                 Ret (F_read 0 8292 1808) (default_reply\<lparr>r_cnt := 1000\<rparr>)]
       \<and> filter is_loop_event evs = concat (map (chunk_events F_read 0) cs)
       \<and> list_all single_transfer cs \<and> cs \<noteq> []
       \<and> clamped_chunks io_thread 10000 100 cs \<and> chunks_full 10000 cs
       \<and> sum_list (map c_sz cs) = 9192"
    by (intro exI conjI)
       (rule r1, rule r2, rule r3, rule r(3), rule r4, rule r5(1), rule r5(2), rule r6)
  have B: "\<exists>cs evs.
         trace (snd ?W) = trace ?Sw @ evs
       \<and> filter is_loop_event evs
           = [Ret (F_write 0 100 4096) (default_reply\<lparr>r_res := FR_DISK_ERR\<rparr>),
              Ret Sdcard_retry default_reply,
              Ret (F_write 0 100 4096) (default_reply\<lparr>r_cnt := 4096\<rparr>),
              Ret (F_write 0 4196 4096) (default_reply\<lparr>r_cnt := 4096\<rparr>)]
       \<and> filter is_loop_event evs = concat (map (chunk_events F_write 0) cs)
       \<and> list_all (retry_of_device_error io_thread) cs \<and> cs \<noteq> []
       \<and> clamped_chunks io_thread 8192 100 cs \<and> chunks_full 8192 cs
       \<and> sum_list (map c_sz cs) = 8192"
    by (intro exI conjI)
       (rule w1, rule w2, rule w3, rule w(3), rule w4, rule w5(1), rule w5(2), rule w6)
  show ?thesis
    by (intro conjI) (rule examples_enter(3), rule A, rule examples_enter(4), rule B)
qed

text \<open>
  Claim C3 as the specification words it has the loop stop at the first backend error.
  In the write above the first \<^verbatim>\<open>f_write\<close> returns \<open>FR_DISK_ERR\<close>, the recovery
  succeeds, the same chunk is written again, then the second chunk, and the call returns
  8192.  Two transfers follow the first backend error.
\<close>

theorem write_retry_counterexample:
  "fst (FATFS_write io_thread
     (one_file_open_w [default_reply\<lparr>r_res := FR_DISK_ERR\<rparr>, default_reply, default_reply,
        default_reply, default_reply\<lparr>r_cnt := 4096\<rparr>, default_reply\<lparr>r_cnt := 4096\<rparr>])
     0 100 8192) = 8192
   \<and> filter is_transfer (trace (snd (FATFS_write io_thread
     (one_file_open_w [default_reply\<lparr>r_res := FR_DISK_ERR\<rparr>, default_reply, default_reply,
        default_reply, default_reply\<lparr>r_cnt := 4096\<rparr>, default_reply\<lparr>r_cnt := 4096\<rparr>])
     0 100 8192)))
     = [Ret (F_write 0 100 4096) (default_reply\<lparr>r_res := FR_DISK_ERR\<rparr>),
        Ret (F_write 0 100 4096) (default_reply\<lparr>r_cnt := 4096\<rparr>),
        Ret (F_write 0 4196 4096) (default_reply\<lparr>r_cnt := 4096\<rparr>)]"
  using write_two_chunks
  by (simp add: retried_write_def one_file_open_w_eq)

text \<open>A write of 100 bytes whose only transfer succeeds and reports zero bytes.\<close>

lemma write_nothing:
  "fst (write_chunk io_thread 0 100 (chunk_size io_thread (unat (100 :: 32 word)) 100 100)
          (one_file_open_w [default_reply])) = FR_OK
   \<and> fst (snd (write_chunk io_thread 0 100 (chunk_size io_thread (unat (100 :: 32 word)) 100 100)
          (one_file_open_w [default_reply]))) = 0"
  by (simp add: one_file_open_w_eq eval_defs)

lemma write_nothing_call:
  "fst (FATFS_write io_thread (one_file_open_w [default_reply]) 0 100 100) = - 1"
  "errno (snd (FATFS_write io_thread (one_file_open_w [default_reply]) 0 100 100)) = EIO"
  by (simp_all add: one_file_open_w_eq eval_defs write_loop.simps)

text \<open>The theorem of claim C6 on that write: the result code is \<open>FR_OK\<close>, the count is
  zero, the loop returns \<open>-1\<close> with \<open>EIO\<close>, and so does the call.\<close>

theorem write_bad_count_EIO_witness:
  "fst (write_chunk io_thread 0 100 (chunk_size io_thread (unat (100 :: 32 word)) 100 100)
          (one_file_open_w [default_reply])) = FR_OK
   \<and> fst (snd (write_chunk io_thread 0 100 (chunk_size io_thread (unat (100 :: 32 word)) 100 100)
          (one_file_open_w [default_reply]))) = 0
   \<and> write_loop io_thread 0 (unat (100 :: 32 word)) 100 100 0 (one_file_open_w [default_reply])
       = (- 1, (snd (snd (write_chunk io_thread 0 100
                  (chunk_size io_thread (unat (100 :: 32 word)) 100 100)
                  (one_file_open_w [default_reply]))))\<lparr>errno := EIO\<rparr>)
   \<and> fst (FATFS_write io_thread (one_file_open_w [default_reply]) 0 100 100) = - 1
   \<and> errno (snd (FATFS_write io_thread (one_file_open_w [default_reply]) 0 100 100)) = EIO"
proof -
  let ?S = "one_file_open_w [default_reply]"
  let ?wc = "write_chunk io_thread 0 100 (chunk_size io_thread (unat (100 :: 32 word)) 100 100) ?S"
  have "?wc = (fst ?wc, fst (snd ?wc), snd (snd ?wc))"
    by simp
  moreover have "fst (snd ?wc) = 0"
    using write_nothing by simp
  ultimately have "write_loop io_thread 0 (unat (100 :: 32 word)) 100 100 0 ?S
       = (- 1, (snd (snd ?wc))\<lparr>errno := EIO\<rparr>)"
    using write_bad_count_EIO [of io_thread 100 ?S 0 100] by blast
  then show ?thesis
    using write_nothing write_nothing_call by simp
qed

text \<open>
  Claim C6 as the specification words it has every transfer that reports zero bytes, or
  more than was asked for, fail the write.  Two writes of 100 bytes from a thread that
  may retry: the first \<^verbatim>\<open>f_write\<close> returns \<open>FR_DISK_ERR\<close> and reports zero bytes (in the
  second run 5000 bytes); the recovery succeeds, the second \<^verbatim>\<open>f_write\<close> reports 100
  bytes, and the call returns 100 with \<^verbatim>\<open>errno\<close> zero.
\<close>

theorem retried_bad_count_counterexample:
  "fst (FATFS_write io_thread
     (one_file_open_w [default_reply\<lparr>r_res := FR_DISK_ERR, r_cnt := 0\<rparr>, default_reply,
        default_reply, default_reply, default_reply\<lparr>r_cnt := 100\<rparr>])
     0 100 100) = 100
   \<and> errno (snd (FATFS_write io_thread
     (one_file_open_w [default_reply\<lparr>r_res := FR_DISK_ERR, r_cnt := 0\<rparr>, default_reply,
        default_reply, default_reply, default_reply\<lparr>r_cnt := 100\<rparr>])
     0 100 100)) = E_NONE
   \<and> filter is_transfer (trace (snd (FATFS_write io_thread
     (one_file_open_w [default_reply\<lparr>r_res := FR_DISK_ERR, r_cnt := 0\<rparr>, default_reply,
        default_reply, default_reply, default_reply\<lparr>r_cnt := 100\<rparr>])
     0 100 100)))
     = [Ret (F_write 0 100 100) (default_reply\<lparr>r_res := FR_DISK_ERR, r_cnt := 0\<rparr>),
        Ret (F_write 0 100 100) (default_reply\<lparr>r_cnt := 100\<rparr>)]
   \<and> fst (FATFS_write io_thread
     (one_file_open_w [default_reply\<lparr>r_res := FR_DISK_ERR, r_cnt := 5000\<rparr>, default_reply,
        default_reply, default_reply, default_reply\<lparr>r_cnt := 100\<rparr>])
     0 100 100) = 100
   \<and> errno (snd (FATFS_write io_thread
     (one_file_open_w [default_reply\<lparr>r_res := FR_DISK_ERR, r_cnt := 5000\<rparr>, default_reply,
        default_reply, default_reply, default_reply\<lparr>r_cnt := 100\<rparr>])
     0 100 100)) = E_NONE
   \<and> filter is_transfer (trace (snd (FATFS_write io_thread
     (one_file_open_w [default_reply\<lparr>r_res := FR_DISK_ERR, r_cnt := 5000\<rparr>, default_reply,
        default_reply, default_reply, default_reply\<lparr>r_cnt := 100\<rparr>])
     0 100 100)))
     = [Ret (F_write 0 100 100) (default_reply\<lparr>r_res := FR_DISK_ERR, r_cnt := 5000\<rparr>),
        Ret (F_write 0 100 100) (default_reply\<lparr>r_cnt := 100\<rparr>)]"
  by (simp add: one_file_open_w_eq eval_defs write_loop.simps)

section \<open>The file handle table (claim C7)\<close>

text \<open>Which slots are occupied, and by which path: the file table without the
  library's objects.\<close>

definition slot_names :: "fat_state \<Rightarrow> string option list" where
  "slot_names s = map (map_option name) (file_table s)"

lemma slot_names_length [simp]: "length (slot_names s) = length (file_table s)"
  by (simp add: slot_names_def)

lemma slot_names_nth:
  "i < length (file_table s) \<Longrightarrow> (slot_names s ! i = None) = (file_table s ! i = None)"
  by (simp add: slot_names_def)

lemma slot_names_fields [simp]:
  "slot_names (s\<lparr>errno := e\<rparr>) = slot_names s"
  "slot_names (s\<lparr>remount_needed := b\<rparr>) = slot_names s"
  "slot_names (s\<lparr>mem := m\<rparr>) = slot_names s"
  "slot_names (s\<lparr>trace := t\<rparr>) = slot_names s"
  "slot_names (s\<lparr>script := r\<rparr>) = slot_names s"
  by (simp_all add: slot_names_def)

lemma slot_names_upd_fobj [simp]: "slot_names (upd_fobj i g s) = slot_names s"
  by (auto simp add: slot_names_def upd_fobj_def map_update list_update_same_conv
      option.map_comp comp_def intro!: nth_equalityI)

lemma ask_frame [simp]:
  "slot_names (snd (ask c s)) = slot_names s"
  "remount_needed (snd (ask c s)) = remount_needed s"
  "file_table (snd (ask c s)) = file_table s"
  "errno (snd (ask c s)) = errno s"
  by (simp_all add: ask_def slot_names_def)

lemma tell_frame [simp]:
  "slot_names (tell c s) = slot_names s"
  "remount_needed (tell c s) = remount_needed s"
  "file_table (tell c s) = file_table s"
  "errno (tell c s) = errno s"
  by (simp_all add: tell_def slot_names_def)

lemma upd_fobj_frame [simp]:
  "remount_needed (upd_fobj i g s) = remount_needed s"
  "length (file_table (upd_fobj i g s)) = length (file_table s)"
  by (simp_all add: upd_fobj_def)

lemma f_open_frame [simp]:
  "slot_names (snd (f_open i p m s)) = slot_names s"
  "remount_needed (snd (f_open i p m s)) = remount_needed s"
  "length (file_table (snd (f_open i p m s))) = length (file_table s)"
  by (simp_all add: f_open_def case_prod_beta)

lemma f_lseek_frame [simp]:
  "slot_names (snd (f_lseek i pos s)) = slot_names s"
  "remount_needed (snd (f_lseek i pos s)) = remount_needed s"
  "length (file_table (snd (f_lseek i pos s))) = length (file_table s)"
  by (simp_all add: f_lseek_def case_prod_beta)

lemma f_close_frame [simp]:
  "slot_names (snd (f_close i s)) = slot_names s"
  "remount_needed (snd (f_close i s)) = remount_needed s"
  "file_table (snd (f_close i s)) = file_table s"
  by (simp_all add: f_close_def case_prod_beta)

lemma reopen_slot_names [simp]: "slot_names (reopen_slot i s) = slot_names s"
  by (simp add: reopen_slot_def Let_def case_prod_beta split: option.splits)

lemma fold_reopen_names [simp]: "slot_names (fold reopen_slot is s) = slot_names s"
  by (induction "is" arbitrary: s) simp_all

lemma remount_names [simp]: "slot_names (snd (remount_file_system s)) = slot_names s"
  by (simp add: remount_file_system_def Let_def sdcard_retry_def sdcard_stop_def case_prod_beta)

lemma remount_length [simp]:
  "length (file_table (snd (remount_file_system s))) = length (file_table s)"
  by (metis remount_names slot_names_length)

lemma remount_flag_clear:
  "fst (remount_file_system s) \<Longrightarrow> \<not> remount_needed (snd (remount_file_system s))"
  by (simp add: remount_flag remount_fst)

lemma CHECK_REMOUNT_table_cases:
  obtains (failed) s' where "CHECK_REMOUNT s fail k = (fail, s')" "slot_names s' = slot_names s"
      "file_table s' = file_table s" "remount_needed s" "remount_needed s'"
  | (passed) s1 where "CHECK_REMOUNT s fail k = k s1" "slot_names s1 = slot_names s"
      "\<not> remount_needed s1" "\<not> remount_needed s \<Longrightarrow> s1 = s"
proof (cases "remount_needed s")
  case False
  then show ?thesis
    using passed [of s] by (simp add: CHECK_REMOUNT_def)
next
  case True
  show ?thesis
  proof (cases "r_ok (next_reply s)")
    case True
    then show ?thesis
      using passed [of "snd (remount_file_system s)"] \<open>remount_needed s\<close>
      by (simp add: CHECK_REMOUNT_recovers remount_ok_flag)
  next
    case False
    then show ?thesis
      using failed [of "recovery_failed s"] \<open>remount_needed s\<close>
      by (simp add: CHECK_REMOUNT_fails recovery_failed_def slot_names_def)
  qed
qed

lemma new_file_descriptor_cases:
  assumes len: "length (file_table s) = MAX_FILES"
  obtains (full) "\<forall>i<MAX_FILES. file_table s ! i \<noteq> None"
      "new_file_descriptor p s = (- 1, s\<lparr>errno := ENFILE\<rparr>)"
  | (nomem) s' where "new_file_descriptor p s = (- 1, s')" "slot_names s' = slot_names s"
      "remount_needed s' = remount_needed s"
  | (slot) i s' where "new_file_descriptor p s = (int i, s')" "i < MAX_FILES"
      "file_table s ! i = None" "slot_names s' = (slot_names s)[i := Some p]"
      "remount_needed s' = remount_needed s"
proof (cases "find (\<lambda>i. file_table s ! i = None) [0..<MAX_FILES]")
  case None
  then have "\<forall>i<MAX_FILES. file_table s ! i \<noteq> None"
    by (auto simp add: find_None_iff)
  then show ?thesis
    using full None by (simp add: new_file_descriptor_def)
next
  case (Some i)
  then have i: "i < MAX_FILES" "file_table s ! i = None"
    by (auto simp add: find_Some_iff)
  let ?s1 = "snd (ask (Alloc ''FAT_FILE'') s)"
  let ?s2 = "snd (ask (Alloc ''name'') ?s1)"
  show ?thesis
  proof (cases "r_ok (next_reply s)")
    case False
    then have "new_file_descriptor p s = (- 1, ?s1\<lparr>errno := ENOMEM\<rparr>)"
      using Some by (simp add: new_file_descriptor_def alloc_def ask_def)
    then show ?thesis
      using nomem [of "?s1\<lparr>errno := ENOMEM\<rparr>"] by simp
  next
    case ok1: True
    show ?thesis
    proof (cases "r_ok (next_reply ?s1)")
      case False
      then have "new_file_descriptor p s = (- 1, (tell (Free ''FAT_FILE'') ?s2)\<lparr>errno := ENOMEM\<rparr>)"
        using Some ok1 by (simp add: new_file_descriptor_def alloc_def ask_def)
      then show ?thesis
        using nomem [of "(tell (Free ''FAT_FILE'') ?s2)\<lparr>errno := ENOMEM\<rparr>"] by simp
    next
      case True
      then have "new_file_descriptor p s
          = (int i, ?s2\<lparr>file_table := (file_table ?s2)[i := Some \<lparr>fobj = FIL_zero, name = p\<rparr>]\<rparr>)"
        using Some ok1 by (simp add: new_file_descriptor_def alloc_def ask_def)
      then show ?thesis
        using slot [of i "?s2\<lparr>file_table := (file_table ?s2)[i := Some \<lparr>fobj = FIL_zero, name = p\<rparr>]\<rparr>"] i
        by (simp add: slot_names_def map_update)
    qed
  qed
qed

lemma free_file_descriptor_names:
  assumes "i < MAX_FILES" "length (file_table s) = MAX_FILES"
  shows "slot_names (free_file_descriptor (int i) s) = (slot_names s)[i := None]"
    and "remount_needed (free_file_descriptor (int i) s) = remount_needed s"
proof -
  show "remount_needed (free_file_descriptor (int i) s) = remount_needed s"
    by (simp add: free_file_descriptor_def fileno_to_stream_def split: option.splits)
  show "slot_names (free_file_descriptor (int i) s) = (slot_names s)[i := None]"
  proof (cases "file_table s ! i")
    case None
    then have "slot_names s ! i = None"
      using assms by (simp add: slot_names_def)
    then have "(slot_names s)[i := None] = slot_names s"
      using assms by (simp add: list_update_same_conv)
    then show ?thesis
      using None assms by (simp add: free_file_descriptor_def fileno_to_stream_def)
  next
    case (Some f)
    then show ?thesis
      using assms
      by (simp add: free_file_descriptor_def fileno_to_stream_def slot_names_def map_update)
  qed
qed

lemma open_tail_effect:
  assumes i: "i < MAX_FILES" and len: "length (file_table s1) = MAX_FILES"
    and nf: "\<not> remount_needed s1"
  shows "(fst (open_tail c i p fl m s1) = - 1
            \<and> slot_names (snd (open_tail c i p fl m s1)) = (slot_names s1)[i := None])
         \<or> (fst (open_tail c i p fl m s1) = int i
            \<and> slot_names (snd (open_tail c i p fl m s1)) = slot_names s1
            \<and> \<not> remount_needed (snd (open_tail c i p fl m s1)))"
proof -
  obtain res1 s2 where o1: "f_open i p m s1 = (res1, s2)"
    by (cases "f_open i p m s1") auto
  have s2: "slot_names s2 = slot_names s1" "\<not> remount_needed s2" "length (file_table s2) = MAX_FILES"
    using f_open_frame [of i p m s1] o1 nf len by simp_all
  define blk where "blk = (if res1 = FR_DISK_ERR \<and> RETRY_ALLOWED c
                             then (case remount_file_system (tell (Delay 100) s2) of
                                     (ok, s3) \<Rightarrow>
                                       if ok then f_open i p m s3
                                       else (res1, s3))
                             else (res1, s2))"
  obtain res s4 where b: "blk = (res, s4)"
    by (cases blk) auto
  have s4: "slot_names s4 = slot_names s1" "length (file_table s4) = MAX_FILES"
    "res = FR_OK \<longrightarrow> \<not> remount_needed s4"
  proof -
    let ?r = "remount_file_system (tell (Delay 100) s2)"
    have "slot_names s4 = slot_names s1 \<and> length (file_table s4) = MAX_FILES
          \<and> (res = FR_OK \<longrightarrow> \<not> remount_needed s4)"
    proof (cases "res1 = FR_DISK_ERR \<and> RETRY_ALLOWED c")
      case False
      then show ?thesis using b s2 by (auto simp add: blk_def)
    next
      case True
      show ?thesis
      proof (cases "fst ?r")
        case False
        then have "(res, s4) = (res1, snd ?r)"
          using b True by (simp add: blk_def case_prod_beta)
        then show ?thesis
          using True s2 by auto
      next
        case ok: True
        then have "(res, s4) = f_open i p m (snd ?r)"
          using b True by (simp add: blk_def case_prod_beta)
        then have "s4 = snd (f_open i p m (snd ?r))"
          by (metis snd_conv)
        then show ?thesis
          using s2 remount_flag_clear [OF ok] by simp
      qed
    qed
    then show "slot_names s4 = slot_names s1" "length (file_table s4) = MAX_FILES"
      "res = FR_OK \<longrightarrow> \<not> remount_needed s4" by simp_all
  qed
  have T: "open_tail c i p fl m s1 =
      (if res \<noteq> FR_OK
       then (- 1, free_file_descriptor (int i) (s4\<lparr>errno := fatfs_to_errno res\<rparr>))
       else if fl AND O_APPEND \<noteq> 0
       then (case f_lseek i (f_size i s4) s4 of
               (res', s5) \<Rightarrow>
                 if res' \<noteq> FR_OK
                 then (- 1, free_file_descriptor (int i)
                              (snd (f_close i (s5\<lparr>errno := fatfs_to_errno res'\<rparr>))))
                 else (int i, s5))
       else (int i, s4))"
    using o1 b by (simp add: open_tail_def blk_def [symmetric])
  show ?thesis
  proof (cases "res \<noteq> FR_OK")
    case True
    then show ?thesis
      using T i s4 free_file_descriptor_names(1) [of i "s4\<lparr>errno := fatfs_to_errno res\<rparr>"]
      by simp
  next
    case False
    show ?thesis
    proof (cases "fl AND O_APPEND \<noteq> 0")
      case False
      then show ?thesis
        using T \<open>\<not> res \<noteq> FR_OK\<close> s4 by simp
    next
      case True
      obtain res' s5 where l: "f_lseek i (f_size i s4) s4 = (res', s5)"
        by (cases "f_lseek i (f_size i s4) s4") auto
      have s5: "slot_names s5 = slot_names s1" "length (file_table s5) = MAX_FILES"
        "\<not> remount_needed s5"
        using f_lseek_frame [of i "f_size i s4" s4] l s4 \<open>\<not> res \<noteq> FR_OK\<close> by simp_all
      show ?thesis
      proof (cases "res' \<noteq> FR_OK")
        case False
        then show ?thesis
          using T \<open>\<not> res \<noteq> FR_OK\<close> True l s5 by simp
      next
        case bad: True
        let ?s6 = "snd (f_close i (s5\<lparr>errno := fatfs_to_errno res'\<rparr>))"
        have "slot_names ?s6 = slot_names s1" "length (file_table ?s6) = MAX_FILES"
          using s5 by simp_all
        then show ?thesis
          using T \<open>\<not> res \<noteq> FR_OK\<close> True l bad i
            free_file_descriptor_names(1) [of i ?s6]
          by simp
      qed
    qed
  qed
qed

text \<open>
  What every sequence of \<open>open\<close> and \<open>close\<close> calls keeps true: the table has its
  \<open>MAX_FILES\<close> slots, and while the volume is flagged for a remount some slot is free
  (among these calls only an \<open>open\<close> whose retry failed sets the flag, and it gives
  its slot back).
\<close>

definition table_inv :: "fat_state \<Rightarrow> bool" where
  "table_inv s =
     (length (file_table s) = MAX_FILES \<and> (remount_needed s \<longrightarrow> None \<in> set (slot_names s)))"

lemma open_body_effect:
  assumes len: "length (file_table s) = MAX_FILES" and nf: "\<not> remount_needed s"
  shows "table_inv (snd (open_body c s p fl))
     \<and> ((fst (open_body c s p fl) = - 1 \<and> slot_names (snd (open_body c s p fl)) = slot_names s)
        \<or> (\<exists>i<MAX_FILES. fst (open_body c s p fl) = int i \<and> file_table s ! i = None
              \<and> slot_names (snd (open_body c s p fl)) = (slot_names s)[i := Some p]))"
proof -
  let ?s0 = "s\<lparr>errno := E_NONE\<rparr>"
  have len0: "length (file_table ?s0) = MAX_FILES"
    using len by simp
  from len0 show ?thesis
  proof (cases rule: new_file_descriptor_cases [where p = p])
    case full
    then show ?thesis
      using len nf by (simp add: open_body_alt table_inv_def)
  next
    case (nomem s')
    then have "length (file_table s') = MAX_FILES"
      using len by (metis slot_names_fields(1) slot_names_length)
    then show ?thesis
      using nomem nf by (simp add: open_body_alt table_inv_def)
  next
    case (slot i s1)
    define m where "m = (let access_modes =
                    (if fl AND O_ACCMODE = O_RDWR then FA_READ OR FA_WRITE
                     else if fl AND O_ACCMODE = O_RDONLY then FA_READ
                     else FA_WRITE)
                  in if fl AND O_CREAT \<noteq> 0
                     then (if fl AND O_TRUNC \<noteq> 0 then access_modes OR FA_CREATE_ALWAYS
                           else access_modes OR FA_OPEN_ALWAYS)
                     else access_modes)"
    have B: "open_body c s p fl = open_tail c i p fl m s1"
      using slot(1) by (simp add: open_body_alt m_def)
    have n1: "slot_names s1 = (slot_names s)[i := Some p]"
      using slot(4) by simp
    have len1: "length (file_table s1) = MAX_FILES"
      using len n1 by (metis length_list_update slot_names_length)
    have nf1: "\<not> remount_needed s1"
      using slot(5) nf by simp
    have free: "slot_names s ! i = None"
      using slot(2,3) len by (simp add: slot_names_def)
    have restored: "(slot_names s1)[i := None] = slot_names s"
      using free slot(2) len by (simp add: n1 list_update_same_conv)
    from open_tail_effect [OF slot(2) len1 nf1, of c p fl m]
    show ?thesis
    proof
      assume f: "fst (open_tail c i p fl m s1) = - 1
            \<and> slot_names (snd (open_tail c i p fl m s1)) = (slot_names s1)[i := None]"
      then have names: "slot_names (snd (open_tail c i p fl m s1)) = slot_names s"
        using restored by simp
      then have "length (file_table (snd (open_tail c i p fl m s1))) = MAX_FILES"
        using len by (metis slot_names_length)
      moreover have "None \<in> set (slot_names s)"
        using free slot(2) len by (metis nth_mem slot_names_length)
      ultimately show ?thesis
        using f names by (simp add: B table_inv_def)
    next
      assume g: "fst (open_tail c i p fl m s1) = int i
            \<and> slot_names (snd (open_tail c i p fl m s1)) = slot_names s1
            \<and> \<not> remount_needed (snd (open_tail c i p fl m s1))"
      then have "length (file_table (snd (open_tail c i p fl m s1))) = MAX_FILES"
        using len1 by (metis slot_names_length)
      then show ?thesis
        using g n1 slot(2,3) by (auto simp add: B table_inv_def simp flip: slot_names_fields(1))
    qed
  qed
qed

lemma open_body_full:
  assumes len: "length (file_table s) = MAX_FILES"
    and full: "\<forall>i<MAX_FILES. file_table s ! i \<noteq> None"
  shows "open_body c s p fl = (- 1, s\<lparr>errno := ENFILE\<rparr>)"
proof -
  have "find (\<lambda>i. file_table s ! i = None) [0..<MAX_FILES] = None"
    using full by (simp add: find_None_iff)
  then show ?thesis
    by (simp add: open_body_alt new_file_descriptor_def)
qed

lemma FATFS_open_effect:
  assumes inv: "table_inv s"
  shows "table_inv (snd (FATFS_open c s p fl ab))
     \<and> ((fst (FATFS_open c s p fl ab) = - 1
          \<and> slot_names (snd (FATFS_open c s p fl ab)) = slot_names s)
        \<or> (\<exists>i<MAX_FILES. fst (FATFS_open c s p fl ab) = int i \<and> file_table s ! i = None
              \<and> slot_names (snd (FATFS_open c s p fl ab)) = (slot_names s)[i := Some p]))"
proof (cases "file_op_allowed c")
  case False
  then show ?thesis
    using inv by (simp add: FATFS_open_alt)
next
  case True
  have len: "length (file_table s) = MAX_FILES"
    using inv by (simp add: table_inv_def)
  show ?thesis
  proof (cases rule: CHECK_REMOUNT_table_cases [of s "- 1 :: int" "\<lambda>s. open_body c s p fl"])
    case (failed s')
    then have "table_inv s'"
      using inv by (simp add: table_inv_def)
    then show ?thesis
      using True failed by (simp add: FATFS_open_alt)
  next
    case (passed s1)
    have len1: "length (file_table s1) = MAX_FILES"
      using len passed(2) by (metis slot_names_length)
    have same: "file_table s ! i = None \<longleftrightarrow> file_table s1 ! i = None" if "i < MAX_FILES" for i
      using that len len1 passed(2) by (metis slot_names_nth)
    have R: "FATFS_open c s p fl ab = open_body c s1 p fl"
      using True passed(1) by (simp add: FATFS_open_alt)
    from open_body_effect [OF len1 passed(3), of c p fl]
    show ?thesis
      using same by (auto simp add: R passed(2))
  qed
qed

lemma FATFS_open_full:
  assumes inv: "table_inv s" and allowed: "file_op_allowed c"
    and full: "\<forall>i<MAX_FILES. file_table s ! i \<noteq> None"
  shows "FATFS_open c s p fl ab = (- 1, s\<lparr>errno := ENFILE\<rparr>)"
proof -
  have len: "length (file_table s) = MAX_FILES"
    using inv by (simp add: table_inv_def)
  have "None \<notin> set (slot_names s)"
  proof
    assume "None \<in> set (slot_names s)"
    then obtain i where "i < length (slot_names s)" "slot_names s ! i = None"
      by (auto simp add: in_set_conv_nth)
    then show False
      using full len by (simp add: slot_names_nth)
  qed
  then have "\<not> remount_needed s"
    using inv by (auto simp add: table_inv_def)
  then show ?thesis
    using allowed open_body_full [OF len full]
    by (simp add: FATFS_open_alt CHECK_REMOUNT_mounted)
qed

lemma FATFS_close_effect:
  assumes inv: "table_inv s"
  shows "table_inv (snd (FATFS_close c s fd))"
proof (cases "file_op_allowed c")
  case False
  then show ?thesis
    using inv by (simp add: FATFS_close_def)
next
  case True
  have len: "length (file_table s) = MAX_FILES"
    using inv by (simp add: table_inv_def)
  let ?s0 = "s\<lparr>errno := E_NONE\<rparr>"
  show ?thesis
  proof (cases "fd < 0 \<or> int MAX_FILES \<le> fd \<or> file_table s ! nat fd = None")
    case True
    then have "FATFS_close c s fd = (- 1, s\<lparr>errno := EBADF\<rparr>)"
      using \<open>file_op_allowed c\<close>
      by (auto simp add: FATFS_close_def fileno_to_fatfs_def fileno_to_stream_def)
    then show ?thesis
      using inv by (simp add: table_inv_def)
  next
    case False
    then have i: "nat fd < MAX_FILES" "int (nat fd) = fd"
      by auto
    let ?s2 = "snd (f_close (nat fd) ?s0)"
    let ?s3 = "free_file_descriptor fd ?s2"
    have len2: "length (file_table ?s2) = MAX_FILES"
      using len by simp
    have n3: "slot_names ?s3 = (slot_names s)[nat fd := None]"
      using free_file_descriptor_names(1) [OF i(1) len2] i(2) by simp
    have f3: "remount_needed ?s3 = remount_needed s"
      using free_file_descriptor_names(2) [OF i(1) len2] i(2) by simp
    have len3: "length (file_table ?s3) = MAX_FILES"
      using n3 len by (metis length_list_update slot_names_length)
    have "None \<in> set (slot_names ?s3)"
      using n3 i(1) len by (simp add: set_update_memI)
    then have inv3: "table_inv ?s3"
      using len3 by (simp add: table_inv_def)
    have "snd (FATFS_close c s fd) = ?s3 \<or> (\<exists>e. snd (FATFS_close c s fd) = ?s3\<lparr>errno := e\<rparr>)"
      using False \<open>file_op_allowed c\<close>
      by (auto simp add: FATFS_close_def fileno_to_fatfs_def fileno_to_stream_def Let_def
          case_prod_beta split: option.splits)
    then show ?thesis
      using inv3 by (auto simp add: table_inv_def)
  qed
qed

text \<open>Sequences of \<open>open\<close> and \<open>close\<close> calls, each in its own context.\<close>

datatype fs_call = Open string "32 word" bool | Close int

fun step_call :: "context_t \<times> fs_call \<Rightarrow> fat_state \<Rightarrow> fat_state" where
  "step_call (c, Open p fl ab) s = snd (FATFS_open c s p fl ab)"
| "step_call (c, Close fd) s = snd (FATFS_close c s fd)"

definition run_calls :: "(context_t \<times> fs_call) list \<Rightarrow> fat_state \<Rightarrow> fat_state" where
  "run_calls xs s = fold step_call xs s"

lemma table_inv_init: "table_inv (fat_init rs)"
  by (simp add: table_inv_def fat_init_def)

lemma table_inv_step: "table_inv s \<Longrightarrow> table_inv (step_call x s)"
proof (cases x)
  case (Pair c y)
  assume "table_inv s"
  then show ?thesis
    using Pair FATFS_open_effect FATFS_close_effect by (cases y) simp_all
qed

lemma table_inv_run: "table_inv s \<Longrightarrow> table_inv (run_calls xs s)"
  unfolding run_calls_def
  by (induction xs arbitrary: s) (simp_all add: table_inv_step)

lemma open_on_full_table:
  assumes "file_op_allowed c \<and> length (file_table t) = MAX_FILES
        \<and> (\<forall>i<MAX_FILES. file_table t ! i \<noteq> None)"
  shows "(\<not> remount_needed t \<longrightarrow> FATFS_open c t p fl ab = (- 1, t\<lparr>errno := ENFILE\<rparr>))
        \<and> (remount_needed t \<and> \<not> r_ok (next_reply t) \<longrightarrow>
              FATFS_open c t p fl ab = (- 1, recovery_failed t))
        \<and> (remount_needed t \<and> r_ok (next_reply t) \<longrightarrow>
              FATFS_open c t p fl ab = (- 1, (snd (remount_file_system t))\<lparr>errno := ENFILE\<rparr>)
              \<and> slot_names (snd (remount_file_system t)) = slot_names t)"
proof (intro conjI impI)
  have allowed: "file_op_allowed c" and len: "length (file_table t) = MAX_FILES"
    and full: "\<forall>i<MAX_FILES. file_table t ! i \<noteq> None"
    using assms by simp_all
  {
    assume "\<not> remount_needed t"
    then show "FATFS_open c t p fl ab = (- 1, t\<lparr>errno := ENFILE\<rparr>)"
      using allowed open_body_full [OF len full]
      by (simp add: FATFS_open_alt CHECK_REMOUNT_mounted)
  next
    assume "remount_needed t \<and> \<not> r_ok (next_reply t)"
    then show "FATFS_open c t p fl ab = (- 1, recovery_failed t)"
      using allowed by (simp add: FATFS_open_alt CHECK_REMOUNT_fails)
  next
    assume a: "remount_needed t \<and> r_ok (next_reply t)"
    let ?t1 = "snd (remount_file_system t)"
    have n1: "slot_names ?t1 = slot_names t"
      by (rule remount_names)
    have len1: "length (file_table ?t1) = MAX_FILES"
      using len by (simp add: remount_length)
    have full1: "\<forall>i<MAX_FILES. file_table ?t1 ! i \<noteq> None"
      using full len len1 n1 by (metis slot_names_nth)
    show "FATFS_open c t p fl ab = (- 1, ?t1\<lparr>errno := ENFILE\<rparr>)"
      using allowed a open_body_full [OF len1 full1]
      by (simp add: FATFS_open_alt CHECK_REMOUNT_recovers)
    show "slot_names ?t1 = slot_names t"
      by (rule n1)
  }
qed

text \<open>
  Claim C7, as amended.  After any sequence of \<open>open\<close> and \<open>close\<close> calls from the start
  state, whatever the collaborators reply and whether file operations are allowed or not,
  the file table has its 16 slots, so at most 16 are occupied.  A further \<open>open\<close> that
  returns a descriptor returns the index of a slot that was free, occupies it with the
  path, and leaves the occupancy of every other slot as it was.  When all 16 slots are
  occupied and file operations are allowed, a further \<open>open\<close> returns \<open>-1\<close> with
  \<^verbatim>\<open>errno\<close> \<open>ENFILE\<close> and changes nothing else: no slot, no file object, and no call to a
  collaborator.  An \<open>open\<close> made while file operations are not allowed returns \<open>-1\<close> and
  changes nothing, \<^verbatim>\<open>errno\<close> included.  Last, for any state \<open>t\<close> with a full table of 16
  slots, reached in whatever way: an allowed \<open>open\<close> fails with \<open>ENFILE\<close> and changes
  nothing else when the volume is not flagged; when it is flagged the recovery comes
  first, and the \<open>open\<close> fails with \<open>EIO\<close> after a failed recovery (the restart of the
  media session being its only call), or with \<open>ENFILE\<close> after a successful one, which has
  reopened the files and left every slot occupied by the same path.
\<close>

theorem handle_table_bounded:
  "length (file_table (run_calls xs (fat_init rs))) = MAX_FILES
   \<and> length (filter (\<lambda>x. x \<noteq> None) (file_table (run_calls xs (fat_init rs)))) \<le> MAX_FILES
   \<and> (fst (FATFS_open c (run_calls xs (fat_init rs)) p fl ab) \<noteq> - 1 \<longrightarrow>
        0 \<le> fst (FATFS_open c (run_calls xs (fat_init rs)) p fl ab)
        \<and> fst (FATFS_open c (run_calls xs (fat_init rs)) p fl ab) < int MAX_FILES
        \<and> file_table (run_calls xs (fat_init rs))
             ! nat (fst (FATFS_open c (run_calls xs (fat_init rs)) p fl ab)) = None
        \<and> slot_names (snd (FATFS_open c (run_calls xs (fat_init rs)) p fl ab))
             = (slot_names (run_calls xs (fat_init rs)))
                 [nat (fst (FATFS_open c (run_calls xs (fat_init rs)) p fl ab)) := Some p])
   \<and> (file_op_allowed c \<and> (\<forall>i<MAX_FILES. file_table (run_calls xs (fat_init rs)) ! i \<noteq> None) \<longrightarrow>
        FATFS_open c (run_calls xs (fat_init rs)) p fl ab
          = (- 1, (run_calls xs (fat_init rs))\<lparr>errno := ENFILE\<rparr>))
   \<and> (\<not> file_op_allowed c \<longrightarrow> FATFS_open c t p fl ab = (- 1, t))
   \<and> (file_op_allowed c \<and> length (file_table t) = MAX_FILES
        \<and> (\<forall>i<MAX_FILES. file_table t ! i \<noteq> None) \<longrightarrow>
        (\<not> remount_needed t \<longrightarrow> FATFS_open c t p fl ab = (- 1, t\<lparr>errno := ENFILE\<rparr>))
        \<and> (remount_needed t \<and> \<not> r_ok (next_reply t) \<longrightarrow>
              FATFS_open c t p fl ab = (- 1, recovery_failed t))
        \<and> (remount_needed t \<and> r_ok (next_reply t) \<longrightarrow>
              FATFS_open c t p fl ab = (- 1, (snd (remount_file_system t))\<lparr>errno := ENFILE\<rparr>)
              \<and> slot_names (snd (remount_file_system t)) = slot_names t))"
proof -
  let ?S = "run_calls xs (fat_init rs)"
  have inv: "table_inv ?S"
    by (intro table_inv_run table_inv_init)
  have len: "length (file_table ?S) = MAX_FILES"
    using inv by (simp add: table_inv_def)
  have cap: "length (filter (\<lambda>x. x \<noteq> None) (file_table ?S)) \<le> MAX_FILES"
    using length_filter_le [of "\<lambda>x. x \<noteq> None" "file_table ?S"] len by simp
  have handed: "0 \<le> fst (FATFS_open c ?S p fl ab)
        \<and> fst (FATFS_open c ?S p fl ab) < int MAX_FILES
        \<and> file_table ?S ! nat (fst (FATFS_open c ?S p fl ab)) = None
        \<and> slot_names (snd (FATFS_open c ?S p fl ab))
             = (slot_names ?S)[nat (fst (FATFS_open c ?S p fl ab)) := Some p]"
    if "fst (FATFS_open c ?S p fl ab) \<noteq> - 1"
    using FATFS_open_effect [OF inv, of c p fl ab] that by auto
  have full: "FATFS_open c ?S p fl ab = (- 1, ?S\<lparr>errno := ENFILE\<rparr>)"
    if "file_op_allowed c \<and> (\<forall>i<MAX_FILES. file_table ?S ! i \<noteq> None)"
    using FATFS_open_full [OF inv, of c p fl ab] that by simp
  have refused: "FATFS_open c t p fl ab = (- 1, t)" if "\<not> file_op_allowed c"
    using that by (simp add: FATFS_open_def)
  have flagged: "(\<not> remount_needed t \<longrightarrow> FATFS_open c t p fl ab = (- 1, t\<lparr>errno := ENFILE\<rparr>))
        \<and> (remount_needed t \<and> \<not> r_ok (next_reply t) \<longrightarrow>
              FATFS_open c t p fl ab = (- 1, recovery_failed t))
        \<and> (remount_needed t \<and> r_ok (next_reply t) \<longrightarrow>
              FATFS_open c t p fl ab = (- 1, (snd (remount_file_system t))\<lparr>errno := ENFILE\<rparr>)
              \<and> slot_names (snd (remount_file_system t)) = slot_names t)"
    if "file_op_allowed c \<and> length (file_table t) = MAX_FILES
        \<and> (\<forall>i<MAX_FILES. file_table t ! i \<noteq> None)"
    using that by (rule open_on_full_table)
  show ?thesis
    using len cap handed full refused flagged by blast
qed

text \<open>Sixteen successful opens fill the table.\<close>

definition sixteen_opens :: "(context_t \<times> fs_call) list" where
  "sixteen_opens = replicate MAX_FILES (io_thread, Open ''f'' O_RDONLY False)"

lemma sixteen_opens_table:
  "file_table (run_calls sixteen_opens (fat_init []))
     = replicate 16 (Some \<lparr>fobj = FIL_zero, name = ''f''\<rparr>)"
  by (simp add: sixteen_opens_def run_calls_def eval_defs numeral_eq_Suc)

lemma sixteen_opens_errno:
  "errno (run_calls sixteen_opens (fat_init [])) = E_NONE"
  by (simp add: sixteen_opens_def run_calls_def eval_defs numeral_eq_Suc)

lemma first_open:
  "fst (FATFS_open io_thread (run_calls [] (fat_init [])) ''f'' O_RDONLY False) = 0"
  by (simp add: run_calls_def eval_defs)

text \<open>A context in which file operations are not allowed.\<close>

definition no_file_ops :: context_t where
  "no_file_ops = io_thread\<lparr>file_op_allowed := False\<rparr>"

text \<open>The theorem of claim C7 at the start state, where the first \<open>open\<close> returns the
  free descriptor 0; after sixteen opens, where the table is full and the seventeenth
  fails with \<open>ENFILE\<close>, or returns \<open>-1\<close> and changes nothing when file operations are not
  allowed; and on that full table flagged for a remount, with a recovery that fails and
  with one that succeeds.\<close>

theorem handle_table_bounded_witness:
  "fst (FATFS_open io_thread (run_calls [] (fat_init [])) ''f'' O_RDONLY False) = 0
   \<and> file_table (run_calls [] (fat_init [])) ! 0 = None
   \<and> file_op_allowed io_thread
   \<and> file_table (run_calls sixteen_opens (fat_init []))
       = replicate 16 (Some \<lparr>fobj = FIL_zero, name = ''f''\<rparr>)
   \<and> FATFS_open io_thread (run_calls sixteen_opens (fat_init [])) ''g'' O_RDONLY False
       = (- 1, (run_calls sixteen_opens (fat_init []))\<lparr>errno := ENFILE\<rparr>)
   \<and> \<not> file_op_allowed no_file_ops
   \<and> FATFS_open no_file_ops (run_calls sixteen_opens (fat_init [])) ''g'' O_RDONLY False
       = (- 1, run_calls sixteen_opens (fat_init []))
   \<and> \<not> r_ok (next_reply ((run_calls sixteen_opens (fat_init []))
          \<lparr>remount_needed := True, script := [default_reply\<lparr>r_ok := False\<rparr>]\<rparr>))
   \<and> FATFS_open io_thread
        ((run_calls sixteen_opens (fat_init []))
          \<lparr>remount_needed := True, script := [default_reply\<lparr>r_ok := False\<rparr>]\<rparr>)
        ''g'' O_RDONLY False
       = (- 1, recovery_failed ((run_calls sixteen_opens (fat_init []))
          \<lparr>remount_needed := True, script := [default_reply\<lparr>r_ok := False\<rparr>]\<rparr>))
   \<and> r_ok (next_reply ((run_calls sixteen_opens (fat_init []))
          \<lparr>remount_needed := True, script := []\<rparr>))
   \<and> FATFS_open io_thread
        ((run_calls sixteen_opens (fat_init []))\<lparr>remount_needed := True, script := []\<rparr>)
        ''g'' O_RDONLY False
       = (- 1, (snd (remount_file_system
            ((run_calls sixteen_opens (fat_init []))\<lparr>remount_needed := True, script := []\<rparr>)))
              \<lparr>errno := ENFILE\<rparr>)
   \<and> slot_names (snd (remount_file_system
            ((run_calls sixteen_opens (fat_init []))\<lparr>remount_needed := True, script := []\<rparr>)))
       = replicate 16 (Some ''f'')"
proof -
  let ?S = "run_calls sixteen_opens (fat_init [])"
  let ?T1 = "?S\<lparr>remount_needed := True, script := [default_reply\<lparr>r_ok := False\<rparr>]\<rparr>"
  let ?T2 = "?S\<lparr>remount_needed := True, script := []\<rparr>"
  have full: "\<forall>i<MAX_FILES. file_table ?S ! i \<noteq> None"
    by (simp add: sixteen_opens_table MAX_FILES_def)
  have len: "length (file_table ?S) = MAX_FILES"
    by (simp add: sixteen_opens_table MAX_FILES_def)
  have allowed: "file_op_allowed io_thread" and refused: "\<not> file_op_allowed no_file_ops"
    by (simp_all add: io_thread_def no_file_ops_def)
  have start: "file_table (run_calls [] (fat_init [])) ! 0 = None"
    by (simp add: run_calls_def fat_init_def MAX_FILES_def)
  have t1: "remount_needed ?T1" "\<not> r_ok (next_reply ?T1)"
    "length (file_table ?T1) = MAX_FILES" "\<forall>i<MAX_FILES. file_table ?T1 ! i \<noteq> None"
    using full len by (simp_all add: next_reply_def)
  have t2: "remount_needed ?T2" "r_ok (next_reply ?T2)"
    "length (file_table ?T2) = MAX_FILES" "\<forall>i<MAX_FILES. file_table ?T2 ! i \<noteq> None"
    using full len by (simp_all add: next_reply_def default_reply_def)
  have names: "slot_names ?T2 = replicate 16 (Some ''f'')"
    by (simp add: slot_names_def sixteen_opens_table)
  note A = handle_table_bounded [where xs = sixteen_opens and rs = "[]" and c = io_thread
      and p = "''g''" and fl = O_RDONLY and ab = False and t = ?T1]
  note B = handle_table_bounded [where xs = sixteen_opens and rs = "[]" and c = io_thread
      and p = "''g''" and fl = O_RDONLY and ab = False and t = ?T2]
  note C = handle_table_bounded [where xs = sixteen_opens and rs = "[]" and c = no_file_ops
      and p = "''g''" and fl = O_RDONLY and ab = False and t = ?S]
  have a: "FATFS_open io_thread ?S ''g'' O_RDONLY False = (- 1, ?S\<lparr>errno := ENFILE\<rparr>)"
    using A allowed full by blast
  have a1: "FATFS_open io_thread ?T1 ''g'' O_RDONLY False = (- 1, recovery_failed ?T1)"
    using A allowed t1 by blast
  have b: "FATFS_open io_thread ?T2 ''g'' O_RDONLY False
             = (- 1, (snd (remount_file_system ?T2))\<lparr>errno := ENFILE\<rparr>)"
    "slot_names (snd (remount_file_system ?T2)) = slot_names ?T2"
    using B allowed t2 by blast+
  have c: "FATFS_open no_file_ops ?S ''g'' O_RDONLY False = (- 1, ?S)"
    using C refused by blast
  have b': "slot_names (snd (remount_file_system ?T2)) = replicate 16 (Some ''f'')"
    using b(2) names by simp
  show ?thesis
    by (intro conjI)
       (rule first_open start allowed sixteen_opens_table a refused c t1(2) a1 t2(2) b(1) b')+
qed

text \<open>
  Claim C7 as the specification words it has every further \<open>open\<close> on a full table fail
  with \<open>ENFILE\<close>.  After sixteen opens the table is full; an \<open>open\<close> made while file
  operations are not allowed returns \<open>-1\<close> before it looks at the table, and \<^verbatim>\<open>errno\<close>
  is still zero.
\<close>

theorem refused_open_counterexample:
  "file_table (run_calls sixteen_opens (fat_init []))
     = replicate 16 (Some \<lparr>fobj = FIL_zero, name = ''f''\<rparr>)
   \<and> fst (FATFS_open no_file_ops (run_calls sixteen_opens (fat_init [])) ''g'' O_RDONLY False) = - 1
   \<and> errno (snd (FATFS_open no_file_ops (run_calls sixteen_opens (fat_init [])) ''g'' O_RDONLY False))
       = E_NONE"
  by (simp add: FATFS_open_def no_file_ops_def sixteen_opens_table sixteen_opens_errno)

end
